theory Spec2Isabelle
  imports Main "HOL-Library.AList" "HOL-Library.List_Lexorder" "HOL-Library.Char_ord"
begin

section \<open>Strings and paths\<close>

text \<open>
  Go strings are byte sequences; they are modelled as \<open>string\<close> (a list of 8-bit characters).
  The path separator of the \<open>constant\<close> package is \<open>string(os.PathSeparator)\<close>; the model
  is the Unix build, where it is the slash.
\<close>

definition PATH_SEPARATOR :: string where
  "PATH_SEPARATOR = ''/''"

definition TEMP_DIR :: string where
  "TEMP_DIR = ''temp''"

definition CARBON_HOME :: string where
  "CARBON_HOME = ''carbon.home''"

text \<open>\<open>strings.HasPrefix\<close>, \<open>strings.HasSuffix\<close>, \<open>strings.TrimPrefix\<close>, \<open>strings.TrimSuffix\<close>.\<close>

definition HasPrefix :: "string \<Rightarrow> string \<Rightarrow> bool" where
  "HasPrefix s p = (take (length p) s = p)"

definition HasSuffix :: "string \<Rightarrow> string \<Rightarrow> bool" where
  "HasSuffix s p = (length p \<le> length s \<and> drop (length s - length p) s = p)"

definition TrimPrefix :: "string \<Rightarrow> string \<Rightarrow> string" where
  "TrimPrefix s p = (if HasPrefix s p then drop (length p) s else s)"

definition TrimSuffix :: "string \<Rightarrow> string \<Rightarrow> string" where
  "TrimSuffix s p = (if HasSuffix s p then take (length s - length p) s else s)"

text \<open>
  \<open>strings.Split(s, sep)\<close> for a one-character separator (the source only splits at the
  slash and at the comma). The result always has at least one element: \<open>Split '''' c = ['''']\<close>.
\<close>

fun Split :: "string \<Rightarrow> char \<Rightarrow> string list" where
  "Split [] sep = [[]]"
| "Split (c # cs) sep =
     (if c = sep then [] # Split cs sep
      else (case Split cs sep of
              [] \<Rightarrow> [[c]]
            | w # ws \<Rightarrow> (c # w) # ws))"

text \<open>\<open>strings.TrimSpace\<close>, on the ASCII white space characters.\<close>

definition isSpace :: "char \<Rightarrow> bool" where
  "isSpace c = (c \<in> set [CHR '' '', CHR 0x09, CHR 0x0A, CHR 0x0B, CHR 0x0C, CHR 0x0D])"

definition TrimSpace :: "string \<Rightarrow> string" where
  "TrimSpace s = rev (dropWhile isSpace (rev (dropWhile isSpace s)))"

text \<open>
  \<open>path.Clean\<close> and \<open>path.Join\<close> of the Go standard library, segment by segment: empty
  segments and \<open>.\<close> are dropped, \<open>..\<close> removes the segment before it when there is one to
  remove, is dropped at the root of a rooted path, and is kept otherwise. The accumulator
  holds the output segments in reverse order.
\<close>

fun cleanStep :: "bool \<Rightarrow> string \<Rightarrow> string list \<Rightarrow> string list" where
  "cleanStep rooted seg out =
     (if seg = [] \<or> seg = ''.'' then out
      else if seg = ''..'' then
        (case out of
           [] \<Rightarrow> (if rooted then [] else [''..''])
         | x # xs \<Rightarrow> (if x \<noteq> ''..'' then xs else if rooted then out else ''..'' # out))
      else seg # out)"

fun joinSegs :: "string list \<Rightarrow> string" where
  "joinSegs [] = []"
| "joinSegs [s] = s"
| "joinSegs (s # ss) = s @ ''/'' @ joinSegs ss"

definition Clean :: "string \<Rightarrow> string" where
  "Clean p =
     (if p = [] then ''.''
      else let rooted = (hd p = CHR ''/'');
               out = rev (fold (cleanStep rooted) (Split p (CHR ''/'')) [])
           in if rooted then ''/'' @ joinSegs out
              else if out = [] then ''.'' else joinSegs out)"

text \<open>\<open>path.Join\<close>: leading empty elements are ignored, the rest is joined with slashes and cleaned.\<close>

definition Join :: "string list \<Rightarrow> string" where
  "Join elems =
     (case dropWhile (\<lambda>e. e = []) elems of
        [] \<Rightarrow> []
      | es \<Rightarrow> Clean (joinSegs es))"

section \<open>The baseline tree\<close>

text \<open>
  The \<open>node\<close> struct. \<open>childNodes\<close> is a Go map from names to node pointers; it is modelled
  as an association list with distinct keys, read with \<open>map_of\<close> and written with
  \<open>AList.update\<close>. Every node is allocated by \<open>AddToRootNode\<close> and owned by exactly one
  parent, so the pointer structure is a tree and in-place mutation of a child is the
  replacement of the child in its parent's list. The \<open>parent\<close> back pointer is written
  but never read by the source and is left out.
\<close>

datatype node = Node
  (name: string)
  (isDir: bool)
  (relativeLocation: string)
  (childNodes: "(string \<times> node) list")
  (md5Hash: string)

definition createNewNode :: node where
  "createNewNode = Node [] False [] [] []"

datatype error = Panic | ReadError | InputError | CopyError

text \<open>The node that both branches of \<open>AddToRootNode\<close> allocate for \<open>path[0]\<close> below \<open>root\<close>.\<close>

definition newChild :: "node \<Rightarrow> string \<Rightarrow> bool \<Rightarrow> string \<Rightarrow> node" where
  "newChild root p d h =
     Node p d
       (if length (relativeLocation root) = 0 then p else relativeLocation root @ ''/'' @ p)
       [] h"

definition setChild :: "node \<Rightarrow> string \<Rightarrow> node \<Rightarrow> node" where
  "setChild root p c =
     Node (name root) (isDir root) (relativeLocation root)
       (AList.update p c (childNodes root)) (md5Hash root)"

text \<open>
  \<open>AddToRootNode\<close>. The source reads \<open>path[0]\<close> first, which panics on an empty path
  (\<open>None\<close>). With one segment left the child is replaced by a fresh node. With more than
  one segment left, an existing child is descended into; a missing child is created with
  the kind and hash of the entry, and the remaining segments are not processed.
\<close>

fun AddToRootNode :: "node \<Rightarrow> string list \<Rightarrow> bool \<Rightarrow> string \<Rightarrow> node option" where
  "AddToRootNode root [] d h = None"
| "AddToRootNode root [p] d h = Some (setChild root p (newChild root p d h))"
| "AddToRootNode root (p # ps) d h =
     (case map_of (childNodes root) p of
        Some c \<Rightarrow>
          (case AddToRootNode c ps d h of
             None \<Rightarrow> None
           | Some c' \<Rightarrow> Some (setChild root p c'))
      | None \<Rightarrow> Some (setChild root p (newChild root p d h)))"

text \<open>\<open>NodeExists\<close> and \<open>PathExists\<close>; \<open>None\<close> is the panic of \<open>path[0]\<close> on an empty path.\<close>

fun NodeExists :: "node \<Rightarrow> string list \<Rightarrow> bool \<Rightarrow> bool option" where
  "NodeExists rootNode [] d = None"
| "NodeExists rootNode (p # ps) d =
     (case map_of (childNodes rootNode) p of
        Some childNode \<Rightarrow>
          (if length (p # ps) > 1 then NodeExists childNode ps d
           else Some (isDir childNode = d))
      | None \<Rightarrow> Some False)"

definition PathExists :: "node \<Rightarrow> string \<Rightarrow> bool \<Rightarrow> bool option" where
  "PathExists rootNode relativePath d = NodeExists rootNode (Split relativePath (CHR ''/'')) d"

text \<open>\<open>CheckMD5\<close> and \<open>CompareMD5\<close>.\<close>

fun CheckMD5 :: "node \<Rightarrow> string list \<Rightarrow> string \<Rightarrow> bool option" where
  "CheckMD5 rootNode [] md5 = None"
| "CheckMD5 rootNode (p # ps) md5 =
     (case map_of (childNodes rootNode) p of
        Some childNode \<Rightarrow>
          (if length (p # ps) > 1 then CheckMD5 childNode ps md5
           else Some (isDir childNode = False \<and> md5Hash childNode = md5))
      | None \<Rightarrow> Some False)"

definition CompareMD5 :: "node \<Rightarrow> string \<Rightarrow> string \<Rightarrow> bool option" where
  "CompareMD5 rootNode relativePath md5 = CheckMD5 rootNode (Split relativePath (CHR ''/'')) md5"

text \<open>
  \<open>FindMatches\<close>. The \<open>matches\<close> map (from a relative location to the node there) is an
  association list; the loop over \<open>root.childNodes\<close> visits the children in the order of
  the list (Go leaves the order of a map iteration open; the resulting map does not depend
  on it when locations are unique).
\<close>

function FindMatches :: "node \<Rightarrow> string \<Rightarrow> bool \<Rightarrow> (string \<times> node) list \<Rightarrow> (string \<times> node) list" where
  "FindMatches root nm d matches =
     fold (\<lambda>kc m. if isDir (snd kc) then FindMatches (snd kc) nm d m else m)
       (childNodes root)
       (case map_of (childNodes root) nm of
          Some childNode \<Rightarrow>
            (if d = isDir childNode then AList.update (relativeLocation root) root matches
             else matches)
        | None \<Rightarrow> matches)"
  by pat_completeness auto

lemma size_child: "kc \<in> set (childNodes root) \<Longrightarrow> size (snd kc) < size root"
proof (cases root)
  case (Node n d l cs h)
  assume "kc \<in> set (childNodes root)"
  with Node have "kc \<in> set cs" by simp
  then have "size_prod (\<lambda>_. 0) size kc \<le> size_list (size_prod (\<lambda>_. 0) size) cs"
    by (simp add: size_list_estimation')
  moreover have "size (snd kc) \<le> size_prod (\<lambda>_. 0) size kc"
    by (cases kc) simp
  ultimately show ?thesis using Node by simp
qed

termination FindMatches
  by (relation "measure (\<lambda>(root, nm, d, matches). size root)") (auto simp: size_child)

declare FindMatches.simps [simp del]

section \<open>Indexing the baseline archive\<close>

text \<open>
  One entry of \<open>zipReader.Reader.File\<close>: its name, the directory flag of its
  \<open>FileInfo\<close>, whether \<open>file.Open()\<close> fails, and what \<open>ioutil.ReadAll\<close> gives: the
  bytes read and whether it reports an error.
\<close>

record zipFile =
  Name :: string
  IsDir :: bool
  openFails :: bool
  payload :: string
  readFails :: bool

text \<open>
  The loop of \<open>readZip\<close> over the entries, after the archive has been opened. The result
  \<open>Inr (rootNode, err)\<close> is the pair the Go function returns; \<open>Inl Panic\<close> is a run-time
  panic. \<open>productName\<close> is the viper value \<open>PRODUCT_NAME\<close> and \<open>H\<close> the hex MD5 digest of
  the standard library. The error of \<open>ioutil.ReadAll\<close> is assigned and never looked at,
  so \<open>readFails\<close> does not occur in the body. The local \<open>fileMap\<close> is only written.
\<close>

fun readZipLoop :: "string \<Rightarrow> (string \<Rightarrow> string) \<Rightarrow> zipFile list \<Rightarrow> node
    \<Rightarrow> error + (node \<times> error option)" where
  "readZipLoop productName H [] rootNode = Inr (rootNode, None)"
| "readZipLoop productName H (file # files) rootNode =
     (if openFails file then Inr (rootNode, Some ReadError)
      else
        let md5Hash = H (payload file);
            relativePath = TrimPrefix (Name file) (productName @ ''/'')
        in case AddToRootNode rootNode (Split relativePath (CHR ''/'')) (IsDir file) md5Hash of
             None \<Rightarrow> Inl Panic
           | Some rootNode' \<Rightarrow> readZipLoop productName H files rootNode')"

definition readZip :: "string \<Rightarrow> (string \<Rightarrow> string) \<Rightarrow> zipFile list
    \<Rightarrow> error + (node \<times> error option)" where
  "readZip productName H files = readZipLoop productName H files createNewNode"

section \<open>Scanning the update directory\<close>

record data =
  data_name :: string
  data_isDir :: bool
  data_relativePath :: string
  data_md5 :: string

text \<open>
  One call of the function that \<open>readDirectory\<close> passes to \<open>filepath.Walk\<close>: the path, the
  base name and kind from \<open>fileInfo\<close>, whether Walk hands over an error for the entry, and
  the result of \<open>util.GetMD5\<close> on it (\<open>None\<close> when it returns an error).
\<close>

record walkEntry =
  absolutePath :: string
  fileName :: string
  fileIsDir :: bool
  walkErr :: bool
  md5Result :: "string option"

type_synonym scan = "(string \<times> data) list \<times> (string \<times> bool) list \<times> (string \<times> bool) list"

text \<open>
  The walk function. It returns the error it gives back to Walk together with the three
  maps as it leaves them; the entry in \<open>rootLevelFilesMap\<close> is written before the hash is
  computed.
\<close>

definition walkFn :: "string \<Rightarrow> (string \<times> bool) list \<Rightarrow> walkEntry \<Rightarrow> scan
    \<Rightarrow> error option \<times> scan" where
  "walkFn root ignoredFiles en st =
     (case st of (allFilesMap, rootLevelDirectoriesMap, rootLevelFilesMap) \<Rightarrow>
        if walkErr en then (Some ReadError, st)
        else if root = absolutePath en then (None, st)
        else if map_of ignoredFiles (fileName en) \<noteq> None then (None, st)
        else
          let relativePath = TrimPrefix (absolutePath en) (root @ ''/'');
              info = \<lparr>data_name = fileName en, data_isDir = False,
                      data_relativePath = relativePath, data_md5 = []\<rparr>
          in if fileIsDir en then
               (None,
                AList.update relativePath (info\<lparr>data_isDir := True\<rparr>) allFilesMap,
                (if Join [root, fileName en] = absolutePath en
                 then AList.update (fileName en) True rootLevelDirectoriesMap
                 else rootLevelDirectoriesMap),
                rootLevelFilesMap)
             else
               let rootLevelFilesMap' =
                     (if Join [root, fileName en] = absolutePath en
                      then AList.update (fileName en) False rootLevelFilesMap
                      else rootLevelFilesMap)
               in case md5Result en of
                    None \<Rightarrow>
                      (Some ReadError, allFilesMap, rootLevelDirectoriesMap, rootLevelFilesMap')
                  | Some md5Sum \<Rightarrow>
                      (None,
                       AList.update relativePath
                         (info\<lparr>data_md5 := md5Sum, data_isDir := False\<rparr>) allFilesMap,
                       rootLevelDirectoriesMap, rootLevelFilesMap'))"

text \<open>
  \<open>filepath.Walk\<close> calls the function on the entries in its visiting order and stops at the
  first error the function returns, which is then Walk's own result.
\<close>

fun Walk :: "(walkEntry \<Rightarrow> scan \<Rightarrow> error option \<times> scan) \<Rightarrow> walkEntry list \<Rightarrow> scan
    \<Rightarrow> error option \<times> scan" where
  "Walk fn [] st = (None, st)"
| "Walk fn (en # ens) st =
     (case fn en st of
        (Some err, st') \<Rightarrow> (Some err, st')
      | (None, st') \<Rightarrow> Walk fn ens st')"

text \<open>
  \<open>readDirectory\<close>: the result of \<open>filepath.Walk\<close> is not assigned, and the last component
  of the returned tuple is the literal \<open>nil\<close>.
\<close>

definition readDirectory :: "string \<Rightarrow> (string \<times> bool) list \<Rightarrow> walkEntry list
    \<Rightarrow> (string \<times> data) list \<times> (string \<times> bool) list \<times> (string \<times> bool) list \<times> error option" where
  "readDirectory root ignoredFiles entries =
     (case Walk (walkFn root ignoredFiles) entries ([], [], []) of
        (err, allFilesMap, rootLevelDirectoriesMap, rootLevelFilesMap) \<Rightarrow>
          (allFilesMap, rootLevelDirectoriesMap, rootLevelFilesMap, None))"

text \<open>
  \<open>getAllMatchingFiles\<close>: the loop over \<open>allFilesMap\<close> in the order of the association
  list (Go leaves the order open).
\<close>

definition getAllMatchingFiles :: "string \<Rightarrow> (string \<times> data) list \<Rightarrow> string list" where
  "getAllMatchingFiles filepath allFilesMap =
     map fst (filter (\<lambda>(filename, d).
        \<not> data_isDir d \<and> HasPrefix filename filepath \<and> filename \<noteq> filepath) allFilesMap)"

section \<open>Placing the entries of the update\<close>

text \<open>
  The answers \<open>util.ProcessUserPreference\<close> distinguishes (\<open>constant.YES\<close>, \<open>constant.NO\<close>,
  \<open>constant.REENTER\<close>, and anything else).
\<close>

datatype preference = YES | NO | REENTER | OTHER

text \<open>
  What a run reads from outside \<open>create.go\<close>: the viper values \<open>UPDATE_ROOT\<close>,
  \<open>UPDATE_NAME\<close> and \<open>CHECK_MD5_DISABLED\<close>; \<open>util.ProcessUserPreference\<close>, whose source is
  not part of the files at hand and which is taken as a parameter; and the outcome of
  \<open>util.CreateDirectory\<close> followed by \<open>util.CopyFile\<close> for a source and a destination
  (\<open>copyFails\<close>).
\<close>

record env =
  UPDATE_ROOT :: string
  UPDATE_NAME :: string
  CHECK_MD5_DISABLED :: bool
  ProcessUserPreference :: "string \<Rightarrow> preference"
  copyFails :: "string \<Rightarrow> string \<Rightarrow> bool"

text \<open>
  What a run changes: the two lists of \<open>updateDescriptor.File_changes\<close>, the files written
  by \<open>util.CopyFile\<close> (source and destination, in order), and the prompts written by
  \<open>util.PrintInBold\<close>. Log lines and the other console messages are not modelled.
\<close>

record world =
  Added_files :: "string list"
  Modified_files :: "string list"
  copies :: "(string \<times> string) list"
  prompts :: "string list"

definition PrintInBold :: "string \<Rightarrow> world \<Rightarrow> world" where
  "PrintInBold s w = w\<lparr>prompts := prompts w @ [s]\<rparr>"

text \<open>
  \<open>copyFile\<close>. \<open>util.HandleErrorAndExit\<close> ends the process on an error (\<open>Inl\<close>).
\<close>

definition copyFile :: "env \<Rightarrow> string \<Rightarrow> string \<Rightarrow> string \<Rightarrow> node \<Rightarrow> world \<Rightarrow> error + world" where
  "copyFile e filename locationInUpdate relativeLocationInTemp rootNode w =
     (let updateName = UPDATE_NAME e;
          source = Join [locationInUpdate, filename];
          carbonHome = Join [TEMP_DIR, updateName, CARBON_HOME];
          destination = Join [carbonHome, relativeLocationInTemp];
          fullPath = Join [destination, filename]
      in if copyFails e source fullPath then Inl CopyError
         else
           let w' = w\<lparr>copies := copies w @ [(source, fullPath)]\<rparr>;
               relativePath = TrimPrefix fullPath (carbonHome @ PATH_SEPARATOR)
           in case PathExists rootNode relativePath False of
                None \<Rightarrow> Inl Panic
              | Some contains \<Rightarrow>
                  if contains
                  then Inr (w'\<lparr>Modified_files := Modified_files w' @ [relativePath]\<rparr>)
                  else Inr (w'\<lparr>Added_files := Added_files w' @ [relativePath]\<rparr>))"

text \<open>The loop \<open>for _, match := range allMatchingFiles { copyFile(match, ...) }\<close> of \<open>handleNewFile\<close>.\<close>

fun copyMatches :: "env \<Rightarrow> string list \<Rightarrow> string \<Rightarrow> string \<Rightarrow> node \<Rightarrow> world \<Rightarrow> error + world" where
  "copyMatches e [] updateRoot location rootNode w = Inr w"
| "copyMatches e (match # ms) updateRoot location rootNode w =
     (case copyFile e match updateRoot location rootNode w of
        Inl err \<Rightarrow> Inl err
      | Inr w' \<Rightarrow> copyMatches e ms updateRoot location rootNode w')"

text \<open>\<open>allFilesMap[match]\<close>: a missing key gives the zero value of \<open>data\<close>.\<close>

definition dataOf :: "(string \<times> data) list \<Rightarrow> string \<Rightarrow> data" where
  "dataOf allFilesMap match =
     (case map_of allFilesMap match of
        Some d \<Rightarrow> d
      | None \<Rightarrow> \<lparr>data_name = [], data_isDir = False, data_relativePath = [], data_md5 = []\<rparr>)"

text \<open>
  The loop over \<open>allMatchingFiles\<close> in the directory branch of \<open>handleSingleMatch\<close>
  (lines 383 to 399), which is also the inner loop of the directory branch of
  \<open>handleMultipleMatches\<close> (lines 461 to 476): unless checking is disabled, a file whose
  hash \<open>CompareMD5\<close> finds at the destination is passed over.
\<close>

fun copyUnlessSame :: "env \<Rightarrow> (string \<times> data) list \<Rightarrow> string list \<Rightarrow> string \<Rightarrow> string \<Rightarrow> node
    \<Rightarrow> world \<Rightarrow> error + world" where
  "copyUnlessSame e allFilesMap [] updateRoot location rootNode w = Inr w"
| "copyUnlessSame e allFilesMap (match # ms) updateRoot location rootNode w =
     (if \<not> CHECK_MD5_DISABLED e then
        (case CompareMD5 rootNode (Join [location, match]) (data_md5 (dataOf allFilesMap match)) of
           None \<Rightarrow> Inl Panic
         | Some md5Matches \<Rightarrow>
             if md5Matches then copyUnlessSame e allFilesMap ms updateRoot location rootNode w
             else
               (case copyFile e match updateRoot location rootNode w of
                  Inl err \<Rightarrow> Inl err
                | Inr w' \<Rightarrow> copyUnlessSame e allFilesMap ms updateRoot location rootNode w'))
      else
        (case copyFile e match updateRoot location rootNode w of
           Inl err \<Rightarrow> Inl err
         | Inr w' \<Rightarrow> copyUnlessSame e allFilesMap ms updateRoot location rootNode w'))"

definition handleSingleMatch :: "env \<Rightarrow> string \<Rightarrow> node \<Rightarrow> bool \<Rightarrow> (string \<times> data) list \<Rightarrow> node
    \<Rightarrow> world \<Rightarrow> error + world" where
  "handleSingleMatch e filename matchingNode isD allFilesMap rootNode w =
     (let updateRoot = UPDATE_ROOT e
      in if isD then
           copyUnlessSame e allFilesMap (getAllMatchingFiles filename allFilesMap)
             updateRoot (relativeLocation matchingNode) rootNode w
         else copyFile e filename updateRoot (relativeLocation matchingNode) rootNode w)"

text \<open>\<open>strconv.Itoa\<close> on a number that is not negative.\<close>

function Itoa :: "nat \<Rightarrow> string" where
  "Itoa n = (if n < 10 then [''0123456789'' ! n] else Itoa (n div 10) @ [''0123456789'' ! (n mod 10)])"
  by pat_completeness auto
termination
  by (relation "measure (\<lambda>n. n)") auto

declare Itoa.simps [simp del]

text \<open>
  \<open>generateLocationTable\<close>: the index map of the sorted matching locations, numbered from
  one. The rendered table is not modelled.
\<close>

fun indexPaths :: "string list \<Rightarrow> nat \<Rightarrow> (string \<times> string) list \<Rightarrow> (string \<times> string) list" where
  "indexPaths [] index indexMap = indexMap"
| "indexPaths (distributionFilepath # ps) index indexMap =
     indexPaths ps (index + 1) (AList.update (Itoa index) distributionFilepath indexMap)"

definition generateLocationTable :: "string \<Rightarrow> (string \<times> node) list \<Rightarrow> (string \<times> string) list" where
  "generateLocationTable filename locationsInDistribution =
     indexPaths (sort (map fst locationsInDistribution)) 1 []"

text \<open>
  Modelled from the spec: \<open>util.IsUserPreferencesValid\<close>, whose source is not part of the
  files at hand. The spec accepts a comma-separated list of indices, with \<open>0\<close> as the
  reserved entry and every other index in the range from 1 to the number of candidates; a
  malformed or out-of-range entry makes the step ask again. An index is taken to be a
  non-empty string of decimal digits.
\<close>

definition isDigit :: "char \<Rightarrow> bool" where
  "isDigit c = (CHR ''0'' \<le> c \<and> c \<le> CHR ''9'')"

definition isIndex :: "string \<Rightarrow> bool" where
  "isIndex s = (s \<noteq> [] \<and> list_all isDigit s)"

definition indexValue :: "string \<Rightarrow> nat" where
  "indexValue s = foldl (\<lambda>a c. 10 * a + (of_char c - of_char (CHR ''0''))) 0 s"

definition IsUserPreferencesValid :: "string list \<Rightarrow> nat \<Rightarrow> bool" where
  "IsUserPreferencesValid preferences noOfAvailableChoices =
     list_all (\<lambda>s. isIndex s \<and> indexValue s \<le> noOfAvailableChoices) preferences"

text \<open>
  The first loop of \<open>handleMultipleMatches\<close> (lines 418 to 446). \<open>util.GetUserInput\<close> gives
  the next line of the input; when there is none its error ends the process. The result
  holds the rest of the input, \<open>selectedIndices\<close> and \<open>skipCopying\<close>.
\<close>

fun readPreferences :: "nat \<Rightarrow> string list \<Rightarrow> world
    \<Rightarrow> error + (string list \<times> string list \<times> bool \<times> world)" where
  "readPreferences len [] w = Inl InputError"
| "readPreferences len (line # input) w =
     (let w' = PrintInBold
            ''Enter preference(s)[Multiple selections separated by commas, 0 to skip copying]: '' w;
          preferences = TrimSpace line;
          selectedIndices = sort (Split preferences (CHR '',''))
      in if \<not> IsUserPreferencesValid selectedIndices len then readPreferences len input w'
         else
           (case selectedIndices of
              [] \<Rightarrow> Inl Panic
            | first # _ \<Rightarrow> Inr (input, selectedIndices, first = ''0'', w')))"

text \<open>\<open>indexMap[selectedIndex]\<close>: a missing key gives the empty string.\<close>

definition pathOf :: "(string \<times> string) list \<Rightarrow> string \<Rightarrow> string" where
  "pathOf indexMap selectedIndex =
     (case map_of indexMap selectedIndex of Some p \<Rightarrow> p | None \<Rightarrow> [])"

text \<open>The two loops over \<open>selectedIndices\<close> (lines 454 to 477 and 479 to 485).\<close>

fun copySelectedDirs :: "env \<Rightarrow> string \<Rightarrow> (string \<times> string) list \<Rightarrow> (string \<times> data) list \<Rightarrow> node
    \<Rightarrow> string list \<Rightarrow> world \<Rightarrow> error + world" where
  "copySelectedDirs e filename indexMap allFilesMap rootNode [] w = Inr w"
| "copySelectedDirs e filename indexMap allFilesMap rootNode (selectedIndex # rest) w =
     (let pathInDistribution = pathOf indexMap selectedIndex;
          allMatchingFiles = getAllMatchingFiles filename allFilesMap
      in case copyUnlessSame e allFilesMap allMatchingFiles (UPDATE_ROOT e)
                pathInDistribution rootNode w of
           Inl err \<Rightarrow> Inl err
         | Inr w' \<Rightarrow> copySelectedDirs e filename indexMap allFilesMap rootNode rest w')"

fun copySelectedFiles :: "env \<Rightarrow> string \<Rightarrow> (string \<times> string) list \<Rightarrow> node
    \<Rightarrow> string list \<Rightarrow> world \<Rightarrow> error + world" where
  "copySelectedFiles e filename indexMap rootNode [] w = Inr w"
| "copySelectedFiles e filename indexMap rootNode (selectedIndex # rest) w =
     (let pathInDistribution = pathOf indexMap selectedIndex
      in case copyFile e filename (UPDATE_ROOT e) pathInDistribution rootNode w of
           Inl err \<Rightarrow> Inl err
         | Inr w' \<Rightarrow> copySelectedFiles e filename indexMap rootNode rest w')"

text \<open>
  The handlers that read input return the rest of the input with the new state.
\<close>

definition withInput :: "string list \<Rightarrow> error + world \<Rightarrow> error + (string list \<times> world)" where
  "withInput input r = (case r of Inl err \<Rightarrow> Inl err | Inr w \<Rightarrow> Inr (input, w))"

definition handleMultipleMatches :: "env \<Rightarrow> string \<Rightarrow> bool \<Rightarrow> (string \<times> node) list
    \<Rightarrow> (string \<times> data) list \<Rightarrow> node \<Rightarrow> string list \<Rightarrow> world \<Rightarrow> error + (string list \<times> world)" where
  "handleMultipleMatches e filename isD matches allFilesMap rootNode input w =
     (let indexMap = generateLocationTable filename matches
      in case readPreferences (length indexMap) input w of
           Inl err \<Rightarrow> Inl err
         | Inr (input', selectedIndices, skipCopying, w') \<Rightarrow>
             if skipCopying then Inr (input', w')
             else if isD then
               withInput input'
                 (copySelectedDirs e filename indexMap allFilesMap rootNode selectedIndices w')
             else
               withInput input'
                 (copySelectedFiles e filename indexMap rootNode selectedIndices w'))"

text \<open>
  The inner loop of \<open>handleNewFile\<close> (lines 333 to 361). The \<open>break\<close> of the
  \<open>constant.REENTER\<close> case leaves the \<open>switch\<close> statement only, so the loop asks again.
\<close>

fun copyAnyway :: "env \<Rightarrow> string \<Rightarrow> string \<Rightarrow> node \<Rightarrow> (string \<times> data) list \<Rightarrow> string list
    \<Rightarrow> world \<Rightarrow> error + (string list \<times> world)" where
  "copyAnyway e filename relativeLocationInDistribution rootNode allFilesMap [] w = Inl InputError"
| "copyAnyway e filename relativeLocationInDistribution rootNode allFilesMap (line # input) w =
     (let w' = PrintInBold ''Copy anyway? [y/n/R]: '' w;
          preference = (if length line = 0 then ''r'' else line)
      in case ProcessUserPreference e preference of
           YES \<Rightarrow>
             withInput input
               (copyMatches e (getAllMatchingFiles filename allFilesMap) (UPDATE_ROOT e)
                  relativeLocationInDistribution rootNode w')
         | NO \<Rightarrow> Inr (input, w')
         | REENTER \<Rightarrow>
             copyAnyway e filename relativeLocationInDistribution rootNode allFilesMap input w'
         | OTHER \<Rightarrow>
             copyAnyway e filename relativeLocationInDistribution rootNode allFilesMap input w')"

text \<open>
  \<open>handleNewFile\<close>. Every path through the body of \<open>readDestinationLoop\<close> leaves the loop
  or the function, or stays in the inner loop, so the body runs once.
\<close>

definition handleNewFile :: "env \<Rightarrow> string \<Rightarrow> bool \<Rightarrow> node \<Rightarrow> (string \<times> data) list \<Rightarrow> string list
    \<Rightarrow> world \<Rightarrow> error + (string list \<times> world)" where
  "handleNewFile e filename isD rootNode allFilesMap input0 w =
     (case input0 of
        [] \<Rightarrow> Inl InputError
      | line # input \<Rightarrow>
          let w' = PrintInBold ''Enter destination directory relative to CARBON_HOME: '' w;
              relativeLocationInDistribution =
                TrimSuffix (TrimPrefix line PATH_SEPARATOR) PATH_SEPARATOR;
              updateRoot = UPDATE_ROOT e
          in case (if isD
                   then PathExists rootNode (Join [relativeLocationInDistribution, filename]) True
                   else PathExists rootNode relativeLocationInDistribution True) of
               None \<Rightarrow> Inl Panic
             | Some exists \<Rightarrow>
                 if exists then
                   (if isD then
                      withInput input
                        (copyMatches e (getAllMatchingFiles filename allFilesMap) updateRoot
                           relativeLocationInDistribution rootNode w')
                    else
                      withInput input
                        (copyFile e filename updateRoot relativeLocationInDistribution rootNode w'))
                 else if length relativeLocationInDistribution > 0 then
                   copyAnyway e filename relativeLocationInDistribution rootNode allFilesMap input
                     (PrintInBold ''Entered relative path does not exist in the distribution. '' w')
                 else
                   withInput input
                     (copyMatches e (getAllMatchingFiles filename allFilesMap) updateRoot
                        relativeLocationInDistribution rootNode w'))"

text \<open>The loop of \<open>handleNoMatch\<close> and the function itself.\<close>

fun askAddNew :: "env \<Rightarrow> string \<Rightarrow> bool \<Rightarrow> (string \<times> data) list \<Rightarrow> node \<Rightarrow> string list
    \<Rightarrow> world \<Rightarrow> error + (string list \<times> world)" where
  "askAddNew e filename isD allFilesMap rootNode [] w = Inl InputError"
| "askAddNew e filename isD allFilesMap rootNode (line # input) w =
     (let w' = PrintInBold ''Do you want to add it as a new file? [y/N]: '' w;
          preference = (if length line = 0 then ''n'' else line)
      in case ProcessUserPreference e preference of
           YES \<Rightarrow> handleNewFile e filename isD rootNode allFilesMap input w'
         | NO \<Rightarrow> Inr (input, w')
         | REENTER \<Rightarrow> askAddNew e filename isD allFilesMap rootNode input w'
         | OTHER \<Rightarrow> askAddNew e filename isD allFilesMap rootNode input w')"

definition handleNoMatch :: "env \<Rightarrow> string \<Rightarrow> bool \<Rightarrow> (string \<times> data) list \<Rightarrow> node \<Rightarrow> string list
    \<Rightarrow> world \<Rightarrow> error + (string list \<times> world)" where
  "handleNoMatch e filename isD allFilesMap rootNode input w =
     askAddNew e filename isD allFilesMap rootNode input
       (PrintInBold ([CHR 0x27] @ filename @ [CHR 0x27] @ '' not found in distribution. '') w)"

text \<open>
  The body of the two loops of \<open>createUpdate\<close> over the root level directories and files:
  the matches of one name, and the handler chosen by their number.
\<close>

definition resolveEntry :: "env \<Rightarrow> string \<Rightarrow> bool \<Rightarrow> (string \<times> data) list \<Rightarrow> node \<Rightarrow> string list
    \<Rightarrow> world \<Rightarrow> error + (string list \<times> world)" where
  "resolveEntry e nm isD allFilesMap rootNode input w =
     (let matches = FindMatches rootNode nm isD []
      in case matches of
           [] \<Rightarrow> handleNoMatch e nm isD allFilesMap rootNode input w
         | [(location, match)] \<Rightarrow>
             withInput input (handleSingleMatch e nm match isD allFilesMap rootNode w)
         | _ \<Rightarrow> handleMultipleMatches e nm isD matches allFilesMap rootNode input w)"

section \<open>Walking a path in the tree\<close>

text \<open>
  The node a sequence of segments leads to from a node, child by child, if there is one.
  This is the reading of "the node at a path" that the statements below use; it is not part
  of the source.
\<close>

fun nodeAt :: "node \<Rightarrow> string list \<Rightarrow> node option" where
  "nodeAt root [] = Some root"
| "nodeAt root (p # ps) =
     (case map_of (childNodes root) p of
        None \<Rightarrow> None
      | Some c \<Rightarrow> nodeAt c ps)"

text \<open>The same walk, taking only steps into children that are directories.\<close>

fun dirAt :: "node \<Rightarrow> string list \<Rightarrow> node option" where
  "dirAt root [] = Some root"
| "dirAt root (p # ps) =
     (case map_of (childNodes root) p of
        None \<Rightarrow> None
      | Some c \<Rightarrow> if isDir c then dirAt c ps else None)"

text \<open>
  The nodes the traversal of \<open>FindMatches\<close> calls itself on: the node it starts from, and
  the nodes it reaches through entries of child lists that are directories.
\<close>

inductive visits :: "node \<Rightarrow> node \<Rightarrow> bool" where
  here: "visits root root"
| below: "kc \<in> set (childNodes root) \<Longrightarrow> isDir (snd kc) \<Longrightarrow> visits (snd kc) n \<Longrightarrow> visits root n"

section \<open>What a copy does\<close>

text \<open>
  The names the statements about copies use; they follow the computation of \<open>copyFile\<close> and
  are not part of the source. A copy is given by a pair of the destination location
  (relative to the baseline root) and the relative path of the file in the update; the
  handlers always pass \<open>UPDATE_ROOT\<close> as the location in the update. \<open>copyOf\<close> is
  the source and the destination that \<open>util.CopyFile\<close> receives, \<open>recordOf\<close> the path
  that is appended to one of the two lists, and \<open>fileAt\<close> says that the walk of a path
  ends at a node that is not a directory.
\<close>

definition carbonHomeOf :: "env \<Rightarrow> string" where
  "carbonHomeOf e = Join [TEMP_DIR, UPDATE_NAME e, CARBON_HOME]"

definition copyOf :: "env \<Rightarrow> string \<times> string \<Rightarrow> string \<times> string" where
  "copyOf e lm = (Join [UPDATE_ROOT e, snd lm], Join [Join [carbonHomeOf e, fst lm], snd lm])"

definition recordOf :: "env \<Rightarrow> string \<times> string \<Rightarrow> string" where
  "recordOf e lm = TrimPrefix (snd (copyOf e lm)) (carbonHomeOf e @ PATH_SEPARATOR)"

definition fileAt :: "node \<Rightarrow> string \<Rightarrow> bool" where
  "fileAt root p =
     (case nodeAt root (Split p (CHR ''/'')) of None \<Rightarrow> False | Some n \<Rightarrow> \<not> isDir n)"

text \<open>
  The state \<open>w'\<close> differs from \<open>w\<close> by exactly the copies \<open>lms\<close>, in this order, each with
  one record: in \<open>Modified_files\<close> when a file node was at the recorded path, in
  \<open>Added_files\<close> otherwise.
\<close>

definition exactly :: "env \<Rightarrow> node \<Rightarrow> (string \<times> string) list \<Rightarrow> world \<Rightarrow> world \<Rightarrow> bool" where
  "exactly e root lms w w' =
     (copies w' = copies w @ map (copyOf e) lms \<and>
      Modified_files w' =
        Modified_files w @ map (recordOf e) (filter (\<lambda>lm. fileAt root (recordOf e lm)) lms) \<and>
      Added_files w' =
        Added_files w @ map (recordOf e) (filter (\<lambda>lm. \<not> fileAt root (recordOf e lm)) lms))"

text \<open>The same for some list of copies of files that all satisfy \<open>ok\<close>.\<close>

definition follows :: "env \<Rightarrow> node \<Rightarrow> (string \<Rightarrow> bool) \<Rightarrow> world \<Rightarrow> world \<Rightarrow> bool" where
  "follows e root ok w w' = (\<exists>lms. exactly e root lms w w' \<and> list_all (\<lambda>lm. ok (snd lm)) lms)"

text \<open>
  With checking enabled, the baseline has a file node at the location joined with the
  relative path of the file, and its hash is the hash of the file in the inventory.
\<close>

definition hashSkip :: "env \<Rightarrow> (string \<times> data) list \<Rightarrow> node \<Rightarrow> string \<Rightarrow> string \<Rightarrow> bool" where
  "hashSkip e allFilesMap root loc m =
     (\<not> CHECK_MD5_DISABLED e \<and>
      (case nodeAt root (Split (Join [loc, m]) (CHR ''/'')) of
         None \<Rightarrow> False
       | Some n \<Rightarrow> \<not> isDir n \<and> md5Hash n = data_md5 (dataOf allFilesMap m)))"

text \<open>The inventory has an entry for the path that is not a directory.\<close>

definition isFileEntry :: "(string \<times> data) list \<Rightarrow> string \<Rightarrow> bool" where
  "isFileEntry allFilesMap m = list_ex (\<lambda>kd. fst kd = m \<and> \<not> data_isDir (snd kd)) allFilesMap"

text \<open>
  The files of a list that are not passed over for a destination, each paired with the
  destination; and the number of records in the two lists.
\<close>

definition kept :: "env \<Rightarrow> (string \<times> data) list \<Rightarrow> node \<Rightarrow> string \<Rightarrow> string list
    \<Rightarrow> (string \<times> string) list" where
  "kept e allFilesMap root loc ms =
     map (Pair loc) (filter (\<lambda>m. \<not> hashSkip e allFilesMap root loc m) ms)"

definition records :: "world \<Rightarrow> nat" where
  "records w = length (Added_files w) + length (Modified_files w)"







section \<open>Example data\<close>

text \<open>Archive entries that open and read without error.\<close>

definition mkFile :: "string \<Rightarrow> string \<Rightarrow> zipFile" where
  "mkFile n p = \<lparr>Name = n, IsDir = False, openFails = False, payload = p, readFails = False\<rparr>"

definition mkDir :: "string \<Rightarrow> zipFile" where
  "mkDir n = \<lparr>Name = n, IsDir = True, openFails = False, payload = [], readFails = False\<rparr>"

text \<open>
  A baseline tree with one directory \<open>conf\<close>, at \<open>repository/conf\<close>. It is the tree that
  \<open>readZip\<close> builds from an archive that lists every directory before its content (lemma
  \<open>baseline_from_zip\<close>, with the identity in place of the digest).
\<close>

definition confNode :: node where
  "confNode =
     Node ''conf'' True ''repository/conf''
       [(''a.xml'', Node ''a.xml'' False ''repository/conf/a.xml'' [] ''A'')] []"

definition repositoryNode :: node where
  "repositoryNode = Node ''repository'' True ''repository'' [(''conf'', confNode)] []"

definition baseline :: node where
  "baseline =
     Node [] False []
       [([], Node [] True [] [] []),
        (''repository'', repositoryNode),
        (''bin'', Node ''bin'' True ''bin''
           [(''run.sh'', Node ''run.sh'' False ''bin/run.sh'' [] ''R'')] [])] []"

text \<open>
  The tree that \<open>readZip\<close> builds from the two file entries \<open>p/a/b/c.txt\<close> and
  \<open>p/a/d.txt\<close> of an archive without directory entries.
\<close>

definition fileWithChild :: node where
  "fileWithChild =
     Node ''a'' False ''a'' [(''d.txt'', Node ''d.txt'' False ''a/d.txt'' [] ''D'')] ''C''"

definition irregular :: node where
  "irregular = Node [] False [] [(''a'', fileWithChild)] []"

text \<open>An environment in which no copy fails, and an update with two sibling directories.\<close>

definition answer :: "string \<Rightarrow> preference" where
  "answer s =
     (if s = ''y'' then YES else if s = ''n'' then NO else if s = ''r'' then REENTER else OTHER)"

definition noFailure :: "string \<Rightarrow> string \<Rightarrow> bool" where
  "noFailure source destination = False"

definition exampleEnv :: env where
  "exampleEnv = \<lparr>UPDATE_ROOT = ''upd'', UPDATE_NAME = ''U'', CHECK_MD5_DISABLED = False,
     ProcessUserPreference = answer, copyFails = noFailure\<rparr>"

definition w0 :: world where
  "w0 = \<lparr>Added_files = [], Modified_files = [], copies = [], prompts = []\<rparr>"

definition fileData :: "string \<Rightarrow> string \<Rightarrow> string \<Rightarrow> data" where
  "fileData n p h = \<lparr>data_name = n, data_isDir = False, data_relativePath = p, data_md5 = h\<rparr>"

definition dirData :: "string \<Rightarrow> string \<Rightarrow> data" where
  "dirData n p = \<lparr>data_name = n, data_isDir = True, data_relativePath = p, data_md5 = []\<rparr>"

definition inventory :: "(string \<times> data) list" where
  "inventory =
     [(''conf'', dirData ''conf'' ''conf''),
      (''conf/a.xml'', fileData ''a.xml'' ''conf/a.xml'' ''A2''),
      (''conf2'', dirData ''conf2'' ''conf2''),
      (''conf2/b.xml'', fileData ''b.xml'' ''conf2/b.xml'' ''B'')]"

text \<open>Two matching locations, as \<open>FindMatches\<close> records them for a file found in two directories.\<close>

definition twoMatches :: "(string \<times> node) list" where
  "twoMatches = [(''repository/conf/b'', Node ''b'' True ''repository/conf/b'' [] []),
                 (''repository/conf/a'', Node ''a'' True ''repository/conf/a'' [] [])]"

text \<open>An update of the directory \<open>conf\<close> whose file \<open>a.xml\<close> is the one of the baseline.\<close>

definition sameUpdate :: "(string \<times> data) list" where
  "sameUpdate =
     [(''conf'', dirData ''conf'' ''conf''),
      (''conf/a.xml'', fileData ''a.xml'' ''conf/a.xml'' ''A''),
      (''conf/n.xml'', fileData ''n.xml'' ''conf/n.xml'' ''N'')]"

text \<open>
  A baseline with the directory \<open>conf\<close> below both \<open>a\<close> and \<open>b\<close>, and an update of
  \<open>conf\<close> whose file \<open>x.xml\<close> has the hash of the one below \<open>a\<close>.
\<close>

definition twoConf :: node where
  "twoConf =
     Node [] False []
       [(''a'', Node ''a'' True ''a''
           [(''conf'', Node ''conf'' True ''a/conf''
               [(''x.xml'', Node ''x.xml'' False ''a/conf/x.xml'' [] ''X'')] [])] []),
        (''b'', Node ''b'' True ''b''
           [(''conf'', Node ''conf'' True ''b/conf''
               [(''x.xml'', Node ''x.xml'' False ''b/conf/x.xml'' [] ''Y'')] [])] [])] []"

definition confUpdate :: "(string \<times> data) list" where
  "confUpdate =
     [(''conf'', dirData ''conf'' ''conf''),
      (''conf/x.xml'', fileData ''x.xml'' ''conf/x.xml'' ''X'')]"


section \<open>Properties of the path functions\<close>

lemma Split_nonempty: "Split s c \<noteq> []"
  by (induction s) (auto split: list.splits)

lemma CheckMD5_nodeAt:
  "ps \<noteq> [] \<Longrightarrow>
   CheckMD5 root ps h =
     Some (case nodeAt root ps of None \<Rightarrow> False | Some n \<Rightarrow> \<not> isDir n \<and> md5Hash n = h)"
proof (induction ps arbitrary: root)
  case Nil
  then show ?case by simp
next
  case (Cons p ps)
  show ?case
  proof (cases "map_of (childNodes root) p")
    case None
    then show ?thesis by simp
  next
    case (Some c)
    then show ?thesis using Cons.IH [of c] by (cases ps) auto
  qed
qed

lemma NodeExists_nodeAt:
  "ps \<noteq> [] \<Longrightarrow>
   NodeExists root ps d =
     Some (case nodeAt root ps of None \<Rightarrow> False | Some n \<Rightarrow> isDir n = d)"
proof (induction ps arbitrary: root)
  case Nil
  then show ?case by simp
next
  case (Cons p ps)
  show ?case
  proof (cases "map_of (childNodes root) p")
    case None
    then show ?thesis by simp
  next
    case (Some c)
    then show ?thesis using Cons.IH [of c] by (cases ps) auto
  qed
qed

lemma PathExists_nodeAt:
  "PathExists root p d =
     Some (case nodeAt root (Split p (CHR ''/'')) of None \<Rightarrow> False | Some n \<Rightarrow> isDir n = d)"
  unfolding PathExists_def by (rule NodeExists_nodeAt) (rule Split_nonempty)

text \<open>
  Claim C10. For every tree, relative path and hash value, \<open>CompareMD5\<close> returns (it does
  not panic), and it returns true exactly when the walk of the path from the root ends at
  a node that is not a directory and whose stored hash is the given value. So it returns
  false when there is no node at the path and when the node there is a directory.
\<close>

theorem CompareMD5_true_iff:
  "CompareMD5 root p h =
     Some (case nodeAt root (Split p (CHR ''/'')) of
             None \<Rightarrow> False
           | Some n \<Rightarrow> \<not> isDir n \<and> md5Hash n = h)"
  unfolding CompareMD5_def by (rule CheckMD5_nodeAt) (rule Split_nonempty)

section \<open>Building the tree\<close>

lemmas zip_eval = readZip_def mkFile_def mkDir_def TrimPrefix_def HasPrefix_def setChild_def
  newChild_def createNewNode_def PathExists_def

lemma baseline_from_zip:
  "readZip ''p'' id [mkDir ''p/'', mkDir ''p/repository/'', mkDir ''p/repository/conf/'',
      mkFile ''p/repository/conf/a.xml'' ''A'', mkDir ''p/bin/'', mkFile ''p/bin/run.sh'' ''R'']
   = Inr (baseline, None)"
  by (simp add: zip_eval baseline_def repositoryNode_def confNode_def)

text \<open>
  Claim C1, at an archive whose only entry is the file \<open>p/a/b/c.txt\<close> (product name
  \<open>p\<close>, no directory entries). The claim asks for a node per path, each reachable with
  its declared kind. \<open>readZip\<close> returns a tree whose only node is \<open>a\<close>, stored as a file
  with the hash of \<open>c.txt\<close>: the path \<open>a/b/c.txt\<close> is not in the tree.
\<close>

theorem readZip_loses_nested_path:
  "readZip ''p'' H [mkFile ''p/a/b/c.txt'' ''C''] =
     Inr (Node [] False [] [(''a'', Node ''a'' False ''a'' [] (H ''C''))] [], None) \<and>
   PathExists (Node [] False [] [(''a'', Node ''a'' False ''a'' [] (H ''C''))] []) ''a/b/c.txt'' False
     = Some False \<and>
   PathExists (Node [] False [] [(''a'', Node ''a'' False ''a'' [] (H ''C''))] []) ''a'' False
     = Some True"
  by (simp add: zip_eval)

text \<open>
  An entry for a path that already has a node replaces the node by a fresh one, and the
  nodes indexed below it are gone.
\<close>

lemma readZip_replaces_subtree:
  "readZip ''p'' H [mkDir ''p/a/'', mkFile ''p/a/b.txt'' ''B'',
      \<lparr>Name = ''p/a'', IsDir = True, openFails = False, payload = [], readFails = False\<rparr>] =
     Inr (Node [] False [] [(''a'', Node ''a'' True ''a'' [] (H []))] [], None)"
  by (simp add: zip_eval)

text \<open>
  Claim C7, at an archive with the one entry \<open>p/a.txt\<close> that opens and whose payload
  cannot be read to the end (\<open>ioutil.ReadAll\<close> returns the bytes \<open>par\<close> and an error). The
  claim asks for a ReadError. \<open>readZip\<close> returns no error, and a tree in which \<open>a.txt\<close>
  carries the hash of the bytes that were read.
\<close>

theorem readZip_ignores_read_error:
  "readZip ''p'' H
     [\<lparr>Name = ''p/a.txt'', IsDir = False, openFails = False, payload = ''par'', readFails = True\<rparr>] =
   Inr (Node [] False [] [(''a.txt'', Node ''a.txt'' False ''a.txt'' [] (H ''par''))] [], None)"
  by (simp add: zip_eval)

text \<open>The result of \<open>readZip\<close> does not depend on whether the payloads could be read.\<close>

lemma readZipLoop_readFails:
  "readZipLoop pn H (map (\<lambda>f. f\<lparr>readFails := b\<rparr>) files) root = readZipLoop pn H files root"
  by (induction files arbitrary: root) (auto split: option.splits)

section \<open>Scanning\<close>

text \<open>The error component of the result of \<open>readDirectory\<close> is always \<open>nil\<close>.\<close>

lemma readDirectory_error_nil: "snd (snd (snd (readDirectory root ign entries))) = None"
  by (simp add: readDirectory_def split: prod.splits)

text \<open>
  Claim C6, at an update directory \<open>upd\<close> with the files \<open>a.txt\<close>, \<open>b.txt\<close> and \<open>c.txt\<close>,
  of which \<open>b.txt\<close> cannot be read (\<open>util.GetMD5\<close> returns an error). The claim asks for a
  ReadError and no partial inventory. \<open>readDirectory\<close> returns the inventory as far as the
  walk came (\<open>a.txt\<close>; \<open>b.txt\<close> already among the root level files) with a \<open>nil\<close> error.
\<close>

theorem readDirectory_partial_no_error:
  "readDirectory ''upd'' []
     [\<lparr>absolutePath = ''upd'', fileName = ''upd'', fileIsDir = True, walkErr = False,
        md5Result = None\<rparr>,
      \<lparr>absolutePath = ''upd/a.txt'', fileName = ''a.txt'', fileIsDir = False, walkErr = False,
        md5Result = Some ''h1''\<rparr>,
      \<lparr>absolutePath = ''upd/b.txt'', fileName = ''b.txt'', fileIsDir = False, walkErr = False,
        md5Result = None\<rparr>,
      \<lparr>absolutePath = ''upd/c.txt'', fileName = ''c.txt'', fileIsDir = False, walkErr = False,
        md5Result = Some ''h3''\<rparr>] =
   ([(''a.txt'', \<lparr>data_name = ''a.txt'', data_isDir = False, data_relativePath = ''a.txt'',
        data_md5 = ''h1''\<rparr>)],
    [],
    [(''a.txt'', False), (''b.txt'', False)],
    None)"
  by (simp add: readDirectory_def walkFn_def TrimPrefix_def HasPrefix_def Join_def Clean_def Let_def)

section \<open>Matching\<close>

lemma dirAt_visits: "dirAt root ps = Some n \<Longrightarrow> visits root n"
proof (induction ps arbitrary: root)
  case Nil
  then show ?case by (simp add: visits.here)
next
  case (Cons p ps)
  then obtain c where c: "map_of (childNodes root) p = Some c" "isDir c" "dirAt c ps = Some n"
    by (auto split: option.splits if_splits)
  from c(1) have "(p, c) \<in> set (childNodes root)" by (rule map_of_SomeD)
  with c Cons.IH [of c] show ?case by (auto intro: visits.below [of "(p, c)"])
qed

lemma FindMatches_Node:
  "FindMatches (Node n dr loc cs h) nm d matches =
     fold (\<lambda>kc m. if isDir (snd kc) then FindMatches (snd kc) nm d m else m) cs
       (case map_of cs nm of
          Some childNode \<Rightarrow>
            (if d = isDir childNode then AList.update loc (Node n dr loc cs h) matches
             else matches)
        | None \<Rightarrow> matches)"
  by (subst FindMatches.simps) (simp split: option.splits)

lemma fold_keeps:
  "(\<And>x m. x \<in> set xs \<Longrightarrow> P m \<Longrightarrow> P (f x m)) \<Longrightarrow> P m0 \<Longrightarrow> P (fold f xs m0)"
  by (induction xs arbitrary: m0) auto

lemma update_key: "k \<in> fst ` set (AList.update k v al)"
  by (simp add: dom_update)

lemma update_keeps: "k \<in> fst ` set al \<Longrightarrow> k \<in> fst ` set (AList.update k' v al)"
  by (simp add: dom_update)

lemma update_set: "x \<in> set (AList.update k v al) \<Longrightarrow> x = (k, v) \<or> x \<in> set al"
  by (induction al) (auto split: if_splits)

text \<open>A key that is in the map stays in it.\<close>

lemma FindMatches_keeps:
  "k \<in> fst ` set ms \<Longrightarrow> k \<in> fst ` set (FindMatches root nm d ms)"
proof (induction root nm d ms rule: FindMatches.induct)
  case (1 root nm d matches)
  have start: "k \<in> fst ` set (case map_of (childNodes root) nm of
          Some childNode \<Rightarrow>
            (if d = isDir childNode then AList.update (relativeLocation root) root matches
             else matches)
        | None \<Rightarrow> matches)"
    using "1.prems" by (auto split: option.splits intro: update_keeps)
  show ?case
    apply (subst FindMatches.simps)
    apply (rule fold_keeps [where P = "\<lambda>m. k \<in> fst ` set m"])
    using "1.IH" start by auto
qed

text \<open>Every visited node with a matching child is recorded.\<close>

lemma FindMatches_visits:
  assumes "visits root n" "map_of (childNodes n) nm = Some c" "isDir c = d"
  shows "relativeLocation n \<in> fst ` set (FindMatches root nm d ms)"
  using assms
proof (induction arbitrary: ms rule: visits.induct)
  case (here root)
  have "relativeLocation root \<in> fst ` set (case map_of (childNodes root) nm of
          Some childNode \<Rightarrow>
            (if d = isDir childNode then AList.update (relativeLocation root) root ms
             else ms)
        | None \<Rightarrow> ms)"
    using here by (simp add: update_key)
  then show ?case
    apply (subst FindMatches.simps)
    apply (rule fold_keeps [where P = "\<lambda>m. relativeLocation root \<in> fst ` set m"])
    by (auto intro: FindMatches_keeps)
next
  case (below kc root n)
  from below(1) obtain xs ys where split: "childNodes root = xs @ kc # ys"
    by (auto simp: in_set_conv_decomp)
  let ?f = "\<lambda>kc m. if isDir (snd kc) then FindMatches (snd kc) nm d m else m"
  let ?k = "relativeLocation n"
  have "\<And>m. ?k \<in> fst ` set (?f kc m)"
    using below by simp
  then have "\<And>m. ?k \<in> fst ` set (fold ?f ys (?f kc m))"
    by (intro fold_keeps [where P = "\<lambda>m. ?k \<in> fst ` set m"]) (auto intro: FindMatches_keeps)
  then show ?case
    by (subst FindMatches.simps) (simp add: split)
qed

text \<open>Everything recorded is a visited node with a matching child, under its own location.\<close>

lemma FindMatches_sound:
  "(P, n) \<in> set (FindMatches root nm d ms) \<Longrightarrow>
   (P, n) \<in> set ms \<or>
   (visits root n \<and> relativeLocation n = P \<and>
    (\<exists>c. map_of (childNodes n) nm = Some c \<and> isDir c = d))"
proof (induction root nm d ms arbitrary: P n rule: FindMatches.induct)
  case (1 root nm d matches)
  let ?Q = "\<lambda>m. \<forall>P n. (P, n) \<in> set m \<longrightarrow> (P, n) \<in> set matches \<or>
   (visits root n \<and> relativeLocation n = P \<and>
    (\<exists>c. map_of (childNodes n) nm = Some c \<and> isDir c = d))"
  let ?f = "\<lambda>kc m. if isDir (snd kc) then FindMatches (snd kc) nm d m else m"
  have start: "?Q (case map_of (childNodes root) nm of
          Some childNode \<Rightarrow>
            (if d = isDir childNode then AList.update (relativeLocation root) root matches
             else matches)
        | None \<Rightarrow> matches)"
    by (auto split: option.splits dest!: update_set intro: visits.here)
  have step: "\<And>kc m. kc \<in> set (childNodes root) \<Longrightarrow> ?Q m \<Longrightarrow> ?Q (?f kc m)"
  proof -
    fix kc m assume kc: "kc \<in> set (childNodes root)" and Q: "?Q m"
    show "?Q (?f kc m)"
    proof (cases "isDir (snd kc)")
      case False
      with Q show ?thesis by simp
    next
      case True
      show ?thesis
      proof (intro allI impI)
        fix P n assume "(P, n) \<in> set (?f kc m)"
        with True have "(P, n) \<in> set (FindMatches (snd kc) nm d m)" by simp
        from "1.IH" [OF kc True this]
        show "(P, n) \<in> set matches \<or>
   (visits root n \<and> relativeLocation n = P \<and>
    (\<exists>c. map_of (childNodes n) nm = Some c \<and> isDir c = d))"
          using Q kc True by (auto intro: visits.below)
      qed
    qed
  qed
  have "?Q (FindMatches root nm d matches)"
    apply (subst FindMatches.simps)
    apply (rule fold_keeps [where P = ?Q])
     apply (erule (1) step)
    by (rule start)
  with "1.prems" show ?case by blast
qed

text \<open>
  Claim C4, as amended. For every tree, name and kind: when a node that the walk of a
  path reaches from the root through directories only has a direct child of that name
  and kind, the node's own relative location is a key of the result of \<open>FindMatches\<close>,
  whatever else matches above or below it. Conversely every entry of the result holds a
  visited node under the node's own relative location, and that node has a direct child
  of the name and kind.
\<close>

theorem FindMatches_parents:
  "(dirAt root ps = Some n \<and> map_of (childNodes n) nm = Some c \<and> isDir c = d
      \<longrightarrow> relativeLocation n \<in> fst ` set (FindMatches root nm d [])) \<and>
   ((P, m) \<in> set (FindMatches root nm d [])
      \<longrightarrow> relativeLocation m = P \<and> visits root m \<and>
          (\<exists>c'. map_of (childNodes m) nm = Some c' \<and> isDir c' = d))"
proof (intro conjI impI)
  assume "dirAt root ps = Some n \<and> map_of (childNodes n) nm = Some c \<and> isDir c = d"
  then show "relativeLocation n \<in> fst ` set (FindMatches root nm d [])"
    using FindMatches_visits [of root n nm c d "[]"] dirAt_visits [of root ps n] by blast
next
  assume "(P, m) \<in> set (FindMatches root nm d [])"
  from FindMatches_sound [OF this]
  show "relativeLocation m = P" "visits root m"
    "\<exists>c'. map_of (childNodes m) nm = Some c' \<and> isDir c' = d"
    by auto
qed

theorem FindMatches_parents_witness:
  "dirAt baseline [''repository''] = Some repositoryNode \<and>
   map_of (childNodes repositoryNode) ''conf'' = Some confNode \<and>
   isDir confNode = True \<and>
   ''repository'' \<in> fst ` set (FindMatches baseline ''conf'' True []) \<and>
   (''repository'', repositoryNode) \<in> set (FindMatches baseline ''conf'' True []) \<and>
   relativeLocation repositoryNode = ''repository'' \<and>
   visits baseline repositoryNode"
  using FindMatches_parents [of baseline "[''repository'']" repositoryNode "''conf''" confNode
      True "''repository''" repositoryNode]
  by (simp add: baseline_def repositoryNode_def confNode_def FindMatches_Node)

text \<open>
  Claim C4 as stated fails at the tree \<open>irregular\<close>, which \<open>readZip\<close> builds from the file
  entries \<open>p/a/b/c.txt\<close> and \<open>p/a/d.txt\<close>: the node at \<open>a\<close> has the direct child \<open>d.txt\<close>
  of kind file, and \<open>a\<close> is not a key of the matches for \<open>d.txt\<close>, since \<open>a\<close> is not a
  directory and the traversal does not enter it.
\<close>

theorem FindMatches_skips_below_file:
  "readZip ''p'' id [mkFile ''p/a/b/c.txt'' ''C'', mkFile ''p/a/d.txt'' ''D'']
     = Inr (irregular, None) \<and>
   nodeAt irregular [''a''] = Some fileWithChild \<and>
   relativeLocation fileWithChild = ''a'' \<and>
   map_of (childNodes fileWithChild) ''d.txt'' = Some (Node ''d.txt'' False ''a/d.txt'' [] ''D'') \<and>
   isDir (Node ''d.txt'' False ''a/d.txt'' [] ''D'') = False \<and>
   ''a'' \<notin> fst ` set (FindMatches irregular ''d.txt'' False [])"
  by (simp add: zip_eval irregular_def fileWithChild_def FindMatches_Node)

section \<open>Copying\<close>

lemmas copy_eval = copyFile_def Join_def Clean_def Let_def TEMP_DIR_def CARBON_HOME_def
  PATH_SEPARATOR_def TrimPrefix_def HasPrefix_def PathExists_def CompareMD5_def dataOf_def

lemmas example_eval = exampleEnv_def noFailure_def w0_def baseline_def repositoryNode_def
  confNode_def inventory_def fileData_def dirData_def

text \<open>
  Claim C5, at the update with the root level directories \<open>conf\<close> (file \<open>conf/a.xml\<close>)
  and \<open>conf2\<close> (file \<open>conf2/b.xml\<close>) and the baseline with the single directory
  \<open>repository/conf\<close>. The claim asks that only the files below \<open>conf\<close> are copied for the
  entry \<open>conf\<close>. \<open>getAllMatchingFiles\<close> compares leading characters, so it also returns
  \<open>conf2/b.xml\<close>, and \<open>handleSingleMatch\<close> copies it to \<open>repository/conf2/b.xml\<close>.
\<close>

theorem getAllMatchingFiles_takes_sibling:
  "getAllMatchingFiles ''conf'' inventory = [''conf/a.xml'', ''conf2/b.xml''] \<and>
   handleSingleMatch exampleEnv ''conf'' repositoryNode True inventory baseline w0 =
     Inr \<lparr>Added_files = [''repository/conf2/b.xml''],
          Modified_files = [''repository/conf/a.xml''],
          copies = [(''upd/conf/a.xml'', ''temp/U/carbon.home/repository/conf/a.xml''),
                    (''upd/conf2/b.xml'', ''temp/U/carbon.home/repository/conf2/b.xml'')],
          prompts = []\<rparr>"
  by (simp add: getAllMatchingFiles_def handleSingleMatch_def copy_eval example_eval)

section \<open>Selecting among several matches\<close>

lemma zero_least: "isIndex s \<Longrightarrow> ''0'' \<le> s"
  by (cases s) (auto simp: isIndex_def isDigit_def)

lemma sorted_hd_least: "sorted (x # xs) \<Longrightarrow> y \<in> set (x # xs) \<Longrightarrow> x \<le> y"
  by auto

lemma sort_not_Nil: "xs \<noteq> [] \<Longrightarrow> sort xs \<noteq> []"
  by (metis set_sort set_empty)

lemma zero_first:
  assumes "list_all isIndex sel" "''0'' \<in> set sel" "sort sel = first # rest"
  shows "first = ''0''"
proof -
  have srt: "sorted (first # rest)" using assms(3) sorted_sort [of sel] by simp
  have "set (sort sel) = set sel" by simp
  then have mem: "set (first # rest) = set sel" using assms(3) by simp
  then have "''0'' \<in> set (first # rest)" using assms(2) by simp
  with srt have "first \<le> ''0''" by (rule sorted_hd_least)
  moreover have "first \<in> set sel" using mem by auto
  then have "isIndex first" using assms(1) by (simp add: list_all_iff)
  then have "''0'' \<le> first" by (rule zero_least)
  ultimately show ?thesis by simp
qed

lemma valid_sort:
  "IsUserPreferencesValid (sort sel) n \<Longrightarrow> list_all isIndex sel"
  by (simp add: IsUserPreferencesValid_def list_all_iff)

lemma PrintInBold_keeps [simp]:
  "copies (PrintInBold s w) = copies w"
  "Added_files (PrintInBold s w) = Added_files w"
  "Modified_files (PrintInBold s w) = Modified_files w"
  by (simp_all add: PrintInBold_def)

lemma readPreferences_zero:
  assumes "list_all (\<lambda>l. \<not> IsUserPreferencesValid (sort (Split (TrimSpace l) (CHR '',''))) n) bad"
    and "IsUserPreferencesValid (sort (Split (TrimSpace line) (CHR '',''))) n"
    and "''0'' \<in> set (Split (TrimSpace line) (CHR '',''))"
  shows "\<exists>w'. readPreferences n (bad @ line # input) w =
           Inr (input, sort (Split (TrimSpace line) (CHR '','')), True, w') \<and>
         copies w' = copies w \<and> Added_files w' = Added_files w \<and>
         Modified_files w' = Modified_files w"
  using assms(1)
proof (induction bad arbitrary: w)
  case Nil
  let ?sel = "Split (TrimSpace line) (CHR '','')"
  obtain first rest where fr: "sort ?sel = first # rest"
    using sort_not_Nil [OF Split_nonempty [of "TrimSpace line" "CHR '',''"]]
    by (cases "sort ?sel") auto
  from zero_first [OF valid_sort [OF assms(2)] assms(3) fr] have "first = ''0''" .
  with fr assms(2) show ?case by (simp add: Let_def)
next
  case (Cons l bad)
  from Cons.prems have bad: "list_all (\<lambda>l. \<not> IsUserPreferencesValid
      (sort (Split (TrimSpace l) (CHR '',''))) n) bad"
    and l: "\<not> IsUserPreferencesValid (sort (Split (TrimSpace l) (CHR '',''))) n"
    by simp_all
  let ?w = "PrintInBold
      ''Enter preference(s)[Multiple selections separated by commas, 0 to skip copying]: '' w"
  from Cons.IH [OF bad, of ?w] obtain w' where
    "readPreferences n (bad @ line # input) ?w =
       Inr (input, sort (Split (TrimSpace line) (CHR '','')), True, w')"
    "copies w' = copies w" "Added_files w' = Added_files w" "Modified_files w' = Modified_files w"
    by auto
  with l show ?case by (simp add: Let_def)
qed

text \<open>
  Claim C8. In the selection loop of \<open>handleMultipleMatches\<close>, after any number of lines
  that are refused, a line whose list of entries is accepted by the validation and contains
  the entry \<open>0\<close> at any position ends the handling of the entry: the function returns
  with the rest of the input, no file is copied and no record is appended, for a file and
  for a directory entry alike. The validation is \<open>IsUserPreferencesValid\<close> as modelled from
  the spec.
\<close>

theorem zero_selection_skips:
  assumes "list_all (\<lambda>l. \<not> IsUserPreferencesValid (sort (Split (TrimSpace l) (CHR '','')))
             (length (generateLocationTable filename matches))) bad"
    and "IsUserPreferencesValid (sort (Split (TrimSpace line) (CHR '','')))
           (length (generateLocationTable filename matches))"
    and "''0'' \<in> set (Split (TrimSpace line) (CHR '',''))"
  shows "\<exists>w'. handleMultipleMatches e filename isD matches allFilesMap rootNode
                 (bad @ line # input) w = Inr (input, w') \<and>
              copies w' = copies w \<and> Added_files w' = Added_files w \<and>
              Modified_files w' = Modified_files w"
proof -
  from readPreferences_zero [OF assms, of input w]
  obtain w' where "readPreferences (length (generateLocationTable filename matches))
      (bad @ line # input) w = Inr (input, sort (Split (TrimSpace line) (CHR '','')), True, w')"
    and "copies w' = copies w" "Added_files w' = Added_files w"
    "Modified_files w' = Modified_files w"
    by blast
  then show ?thesis by (simp add: handleMultipleMatches_def Let_def)
qed

lemma table: "generateLocationTable ''logging-config.xml'' twoMatches = [(''1'', ''repository/conf/a''), (''2'', ''repository/conf/b'')]"
  by (simp add: generateLocationTable_def twoMatches_def Itoa.simps)

theorem zero_selection_skips_witness:
  "list_all (\<lambda>l. \<not> IsUserPreferencesValid (sort (Split (TrimSpace l) (CHR '','')))
             (length (generateLocationTable ''logging-config.xml'' twoMatches))) [''3'', ''x''] \<and>
   IsUserPreferencesValid (sort (Split (TrimSpace ''2,0,1'') (CHR '','')))
           (length (generateLocationTable ''logging-config.xml'' twoMatches)) \<and>
   ''0'' \<in> set (Split (TrimSpace ''2,0,1'') (CHR '','')) \<and>
   (\<exists>w'. handleMultipleMatches exampleEnv ''logging-config.xml'' False twoMatches [] baseline
                 [''3'', ''x'', ''2,0,1'', ''y''] w0 = Inr ([''y''], w') \<and>
              copies w' = [] \<and> Added_files w' = [] \<and> Modified_files w' = [])"
proof -
  have a: "list_all (\<lambda>l. \<not> IsUserPreferencesValid (sort (Split (TrimSpace l) (CHR '','')))
             (length (generateLocationTable ''logging-config.xml'' twoMatches))) [''3'', ''x'']"
    by (simp add: table IsUserPreferencesValid_def isIndex_def isDigit_def indexValue_def
        TrimSpace_def isSpace_def)
  have b: "IsUserPreferencesValid (sort (Split (TrimSpace ''2,0,1'') (CHR '','')))
           (length (generateLocationTable ''logging-config.xml'' twoMatches))"
    by (simp add: table IsUserPreferencesValid_def isIndex_def isDigit_def indexValue_def
        TrimSpace_def isSpace_def)
  have c: "''0'' \<in> set (Split (TrimSpace ''2,0,1'') (CHR '',''))"
    by (simp add: TrimSpace_def isSpace_def)
  from zero_selection_skips [OF a b c, of exampleEnv False "[]" baseline "[''y'']" w0] a b c
  show ?thesis by (simp add: w0_def)
qed

section \<open>Copies and records\<close>

lemma exactly_Nil [simp]: "exactly e root [] w w"
  by (simp add: exactly_def)

lemma exactly_print [simp]: "exactly e root lms (PrintInBold s w) w' = exactly e root lms w w'"
  by (simp add: exactly_def PrintInBold_def)

lemma exactly_trans:
  "exactly e root a w w1 \<Longrightarrow> exactly e root b w1 w2 \<Longrightarrow> exactly e root (a @ b) w w2"
  by (simp add: exactly_def)

lemma copyFile_exactly:
  assumes "copyFile e m (UPDATE_ROOT e) loc root w = Inr w'"
  shows "exactly e root [(loc, m)] w w'" and "prompts w' = prompts w"
  using assms
  by (auto simp: copyFile_def Let_def exactly_def copyOf_def recordOf_def carbonHomeOf_def
      fileAt_def PathExists_nodeAt split: if_splits option.splits)

lemma copyMatches_exactly:
  "copyMatches e ms (UPDATE_ROOT e) loc root w = Inr w' \<Longrightarrow>
   exactly e root (map (Pair loc) ms) w w' \<and> prompts w' = prompts w"
proof (induction ms arbitrary: w)
  case Nil
  then show ?case by simp
next
  case (Cons m ms)
  then obtain w1 where 1: "copyFile e m (UPDATE_ROOT e) loc root w = Inr w1"
    and 2: "copyMatches e ms (UPDATE_ROOT e) loc root w1 = Inr w'"
    by (auto split: sum.splits)
  from copyFile_exactly [OF 1] Cons.IH [OF 2]
  show ?case using exactly_trans [of e root "[(loc, m)]" w w1 "map (Pair loc) ms" w'] by simp
qed

lemma CompareMD5_nodeAt:
  "CompareMD5 root p h =
     Some (case nodeAt root (Split p (CHR ''/'')) of
             None \<Rightarrow> False
           | Some n \<Rightarrow> \<not> isDir n \<and> md5Hash n = h)"
  unfolding CompareMD5_def by (rule CheckMD5_nodeAt) (rule Split_nonempty)

lemma copyUnlessSame_filter:
  "copyUnlessSame e afm ms ur loc root w =
   copyMatches e (filter (\<lambda>m. \<not> hashSkip e afm root loc m) ms) ur loc root w"
  by (induction ms arbitrary: w) (auto simp: hashSkip_def CompareMD5_nodeAt split: sum.splits)

lemma follows_refl [simp]: "follows e root ok w w"
  unfolding follows_def by (rule exI [of _ "[]"]) simp

lemma follows_print [simp]: "follows e root ok (PrintInBold s w) w' = follows e root ok w w'"
  by (simp add: follows_def)

lemma follows_print2 [simp]: "follows e root ok w (PrintInBold s w)"
  unfolding follows_def by (rule exI [of _ "[]"]) (simp add: exactly_def PrintInBold_def)

lemma follows_trans:
  assumes "follows e root ok w w1" "follows e root ok w1 w2"
  shows "follows e root ok w w2"
proof -
  from assms obtain a b where "exactly e root a w w1" "list_all (\<lambda>lm. ok (snd lm)) a"
    "exactly e root b w1 w2" "list_all (\<lambda>lm. ok (snd lm)) b"
    unfolding follows_def by blast
  then have "exactly e root (a @ b) w w2 \<and> list_all (\<lambda>lm. ok (snd lm)) (a @ b)"
    by (simp add: exactly_trans)
  then show ?thesis unfolding follows_def by blast
qed

lemma copyFile_follows:
  assumes "copyFile e m (UPDATE_ROOT e) loc root w = Inr w'" "ok m"
  shows "follows e root ok w w'"
  unfolding follows_def using copyFile_exactly(1) [OF assms(1)] assms(2)
  by (intro exI [of _ "[(loc, m)]"]) simp

lemma copyMatches_follows:
  assumes "list_all ok ms" "copyMatches e ms (UPDATE_ROOT e) loc root w = Inr w'"
  shows "follows e root ok w w'"
  unfolding follows_def using copyMatches_exactly [OF assms(2)] assms(1)
  by (intro exI [of _ "map (Pair loc) ms"]) (simp add: list_all_iff)

lemma copyUnlessSame_follows:
  assumes "list_all ok ms" "copyUnlessSame e afm ms (UPDATE_ROOT e) loc root w = Inr w'"
  shows "follows e root ok w w'"
proof -
  have "list_all ok (filter (\<lambda>m. \<not> hashSkip e afm root loc m) ms)"
    using assms(1) by (simp add: list_all_iff)
  then show ?thesis using assms(2) unfolding copyUnlessSame_filter by (rule copyMatches_follows)
qed

lemma copySelectedDirs_follows:
  assumes "list_all ok (getAllMatchingFiles nm afm)"
  shows "copySelectedDirs e nm im afm root sel w = Inr w' \<Longrightarrow> follows e root ok w w'"
proof (induction sel arbitrary: w)
  case Nil
  then show ?case by simp
next
  case (Cons i sel)
  then obtain w1 where 1: "copyUnlessSame e afm (getAllMatchingFiles nm afm) (UPDATE_ROOT e)
      (pathOf im i) root w = Inr w1"
    and 2: "copySelectedDirs e nm im afm root sel w1 = Inr w'"
    by (auto simp: Let_def split: sum.splits)
  from copyUnlessSame_follows [OF assms 1] Cons.IH [OF 2] show ?case by (rule follows_trans)
qed

lemma copySelectedFiles_follows:
  assumes "ok nm"
  shows "copySelectedFiles e nm im root sel w = Inr w' \<Longrightarrow> follows e root ok w w'"
proof (induction sel arbitrary: w)
  case Nil
  then show ?case by simp
next
  case (Cons i sel)
  then obtain w1 where 1: "copyFile e nm (UPDATE_ROOT e) (pathOf im i) root w = Inr w1"
    and 2: "copySelectedFiles e nm im root sel w1 = Inr w'"
    by (auto simp: Let_def split: sum.splits)
  from copyFile_follows [OF 1, of ok, OF assms] Cons.IH [OF 2]
  show ?case by (rule follows_trans)
qed

lemma readPreferences_follows:
  "readPreferences n input w = Inr (rest, sel, skip, w') \<Longrightarrow> follows e root ok w w'"
proof (induction input arbitrary: w)
  case Nil
  then show ?case by simp
next
  case (Cons l input)
  show ?case
  proof (cases "IsUserPreferencesValid (sort (Split (TrimSpace l) (CHR '',''))) n")
    case True
    with Cons.prems show ?thesis by (auto simp: Let_def split: list.splits)
  next
    case False
    with Cons.prems have "readPreferences n input (PrintInBold
        ''Enter preference(s)[Multiple selections separated by commas, 0 to skip copying]: '' w)
        = Inr (rest, sel, skip, w')"
      by (simp add: Let_def)
    from Cons.IH [OF this] show ?thesis by simp
  qed
qed

lemma withInput_Inr: "withInput input r = Inr (rest, w') \<longleftrightarrow> rest = input \<and> r = Inr w'"
  by (auto simp: withInput_def split: sum.splits)

lemma handleMultipleMatches_follows:
  assumes "list_all ok (getAllMatchingFiles nm afm)" "isD \<or> ok nm"
    and "handleMultipleMatches e nm isD matches afm root input w = Inr (rest, w')"
  shows "follows e root ok w w'"
proof -
  from assms(3) obtain input' sel skip w1 where
    rp: "readPreferences (length (generateLocationTable nm matches)) input w
           = Inr (input', sel, skip, w1)"
    by (auto simp: handleMultipleMatches_def Let_def split: sum.splits)
  have 1: "follows e root ok w w1" using rp by (rule readPreferences_follows)
  have "follows e root ok w1 w'"
  proof (cases skip)
    case True
    with assms(3) rp show ?thesis by (simp add: handleMultipleMatches_def Let_def)
  next
    case False
    show ?thesis
    proof (cases isD)
      case True
      with False assms(3) rp have "copySelectedDirs e nm (generateLocationTable nm matches)
          afm root sel w1 = Inr w'"
        by (simp add: handleMultipleMatches_def Let_def withInput_Inr)
      then show ?thesis by (rule copySelectedDirs_follows [OF assms(1)])
    next
      case isF: False
      with False assms(3) rp have "copySelectedFiles e nm (generateLocationTable nm matches)
          root sel w1 = Inr w'"
        by (simp add: handleMultipleMatches_def Let_def withInput_Inr)
      moreover from assms(2) isF have "ok nm" by simp
      ultimately show ?thesis by (rule copySelectedFiles_follows [rotated])
    qed
  qed
  with 1 show ?thesis by (rule follows_trans)
qed

lemma copyAnyway_follows:
  assumes "list_all ok (getAllMatchingFiles nm afm)"
  shows "copyAnyway e nm rel root afm input w = Inr (rest, w') \<Longrightarrow> follows e root ok w w'"
proof (induction input arbitrary: w)
  case Nil
  then show ?case by simp
next
  case (Cons l input)
  let ?w = "PrintInBold ''Copy anyway? [y/n/R]: '' w"
  show ?case
  proof (cases "ProcessUserPreference e (if length l = 0 then ''r'' else l)")
    case YES
    with Cons.prems have "copyMatches e (getAllMatchingFiles nm afm) (UPDATE_ROOT e) rel root ?w
        = Inr w'"
      by (simp add: Let_def withInput_Inr)
    from copyMatches_follows [OF assms this] show ?thesis by simp
  next
    case NO
    with Cons.prems show ?thesis by (auto simp: Let_def)
  next
    case REENTER
    with Cons.prems have "copyAnyway e nm rel root afm input ?w = Inr (rest, w')"
      by (simp add: Let_def)
    from Cons.IH [OF this] show ?thesis by simp
  next
    case OTHER
    with Cons.prems have "copyAnyway e nm rel root afm input ?w = Inr (rest, w')"
      by (simp add: Let_def)
    from Cons.IH [OF this] show ?thesis by simp
  qed
qed

lemma handleNewFile_follows:
  assumes "list_all ok (getAllMatchingFiles nm afm)" "isD \<or> ok nm"
    and "handleNewFile e nm isD root afm input w = Inr (rest, w')"
  shows "follows e root ok w w'"
proof (cases input)
  case Nil
  with assms(3) show ?thesis by (simp add: handleNewFile_def)
next
  case (Cons l input')
  let ?w = "PrintInBold ''Enter destination directory relative to CARBON_HOME: '' w"
  let ?rel = "TrimSuffix (TrimPrefix l PATH_SEPARATOR) PATH_SEPARATOR"
  from assms(3) Cons consider
    (matches) "copyMatches e (getAllMatchingFiles nm afm) (UPDATE_ROOT e) ?rel root ?w = Inr w'"
  | (top) "\<not> isD" "copyFile e nm (UPDATE_ROOT e) ?rel root ?w = Inr w'"
  | (ask) "copyAnyway e nm ?rel root afm input'
      (PrintInBold ''Entered relative path does not exist in the distribution. '' ?w) = Inr (rest, w')"
    by (auto simp: handleNewFile_def Let_def withInput_Inr split: option.splits if_splits)
  then show ?thesis
  proof cases
    case matches
    from copyMatches_follows [OF assms(1) this] show ?thesis by simp
  next
    case top
    from assms(2) top(1) have "ok nm" by simp
    from copyFile_follows [OF top(2), of ok, OF this]
    show ?thesis by simp
  next
    case ask
    from copyAnyway_follows [OF assms(1) this] show ?thesis by simp
  qed
qed

lemma askAddNew_follows:
  assumes "list_all ok (getAllMatchingFiles nm afm)" "isD \<or> ok nm"
  shows "askAddNew e nm isD afm root input w = Inr (rest, w') \<Longrightarrow> follows e root ok w w'"
proof (induction input arbitrary: w)
  case Nil
  then show ?case by simp
next
  case (Cons l input)
  let ?w = "PrintInBold ''Do you want to add it as a new file? [y/N]: '' w"
  show ?case
  proof (cases "ProcessUserPreference e (if length l = 0 then ''n'' else l)")
    case YES
    with Cons.prems have "handleNewFile e nm isD root afm input ?w = Inr (rest, w')"
      by (simp add: Let_def)
    from handleNewFile_follows [OF assms this] show ?thesis by simp
  next
    case NO
    with Cons.prems show ?thesis by (auto simp: Let_def)
  next
    case REENTER
    with Cons.prems have "askAddNew e nm isD afm root input ?w = Inr (rest, w')"
      by (simp add: Let_def)
    from Cons.IH [OF this] show ?thesis by simp
  next
    case OTHER
    with Cons.prems have "askAddNew e nm isD afm root input ?w = Inr (rest, w')"
      by (simp add: Let_def)
    from Cons.IH [OF this] show ?thesis by simp
  qed
qed

lemma handleSingleMatch_follows:
  assumes "list_all ok (getAllMatchingFiles nm afm)" "isD \<or> ok nm"
    and "handleSingleMatch e nm mn isD afm root w = Inr w'"
  shows "follows e root ok w w'"
proof (cases isD)
  case True
  with assms(3) have "copyUnlessSame e afm (getAllMatchingFiles nm afm) (UPDATE_ROOT e)
      (relativeLocation mn) root w = Inr w'"
    by (simp add: handleSingleMatch_def)
  then show ?thesis by (rule copyUnlessSame_follows [OF assms(1)])
next
  case False
  with assms(3) have "copyFile e nm (UPDATE_ROOT e) (relativeLocation mn) root w = Inr w'"
    by (simp add: handleSingleMatch_def)
  moreover from assms(2) False have "ok nm" by simp
  ultimately show ?thesis by (rule copyFile_follows)
qed

lemma resolveEntry_follows:
  assumes "list_all ok (getAllMatchingFiles nm afm)" "isD \<or> ok nm"
    and "resolveEntry e nm isD afm root input w = Inr (rest, w')"
  shows "follows e root ok w w'"
proof -
  from assms(3) consider
    (none) "handleNoMatch e nm isD afm root input w = Inr (rest, w')"
  | (single) mn where "handleSingleMatch e nm mn isD afm root w = Inr w'"
  | (multiple) "handleMultipleMatches e nm isD (FindMatches root nm isD []) afm root input w
      = Inr (rest, w')"
    by (auto simp: resolveEntry_def Let_def withInput_Inr split: list.splits prod.splits)
  then show ?thesis
  proof cases
    case none
    then have "askAddNew e nm isD afm root input
       (PrintInBold ([CHR 0x27] @ nm @ [CHR 0x27] @ '' not found in distribution. '') w)
       = Inr (rest, w')"
      by (simp add: handleNoMatch_def)
    from askAddNew_follows [OF assms(1,2) this] show ?thesis by simp
  next
    case single
    from handleSingleMatch_follows [OF assms(1,2) single] show ?thesis .
  next
    case multiple
    from handleMultipleMatches_follows [OF assms(1,2) multiple] show ?thesis .
  qed
qed

lemma getAllMatchingFiles_files:
  "list_all (isFileEntry afm) (getAllMatchingFiles nm afm)"
proof -
  have "isFileEntry afm m" if "m \<in> set (getAllMatchingFiles nm afm)" for m
  proof -
    from that obtain d where "(m, d) \<in> set afm" "\<not> data_isDir d"
      by (auto simp: getAllMatchingFiles_def)
    then show ?thesis unfolding isFileEntry_def list_ex_iff
      by (intro bexI [of _ "(m, d)"]) simp_all
  qed
  then show ?thesis by (simp add: list_all_iff)
qed

text \<open>
  Claim C3. Whatever the handling of one root level entry does (no match, single match or
  several matches), when it returns, the state has changed by a list of file copies, and
  each copy has appended exactly one record: a Modified record when the baseline tree had
  a file node at the path that is recorded for the destination, an Added record when it
  had none (no node, or a directory). Every copied path is the path of an inventory entry
  that is not a directory, or the root level file itself; no directory of the update is
  recorded.
\<close>

theorem records_follow_copies:
  assumes "resolveEntry e nm isD afm rootNode input w = Inr (rest, w')"
  shows "\<exists>lms. copies w' = copies w @ map (copyOf e) lms \<and>
     Modified_files w' =
       Modified_files w @
       map (recordOf e) (filter (\<lambda>lm. fileAt rootNode (recordOf e lm)) lms) \<and>
     Added_files w' =
       Added_files w @
       map (recordOf e) (filter (\<lambda>lm. \<not> fileAt rootNode (recordOf e lm)) lms) \<and>
     list_all (\<lambda>lm. isFileEntry afm (snd lm) \<or> (\<not> isD \<and> snd lm = nm)) lms"
proof -
  let ?ok = "\<lambda>m. isFileEntry afm m \<or> (\<not> isD \<and> m = nm)"
  have 1: "list_all ?ok (getAllMatchingFiles nm afm)"
    using getAllMatchingFiles_files [of afm nm] by (simp add: list_all_iff)
  have 2: "isD \<or> ?ok nm" by blast
  from resolveEntry_follows [of ?ok, OF 1 2 assms]
  show ?thesis by (simp add: follows_def exactly_def)
qed

lemmas handler_eval = resolveEntry_def handleSingleMatch_def handleNoMatch_def handleNewFile_def
  handleMultipleMatches_def withInput_def PrintInBold_def getAllMatchingFiles_def
  generateLocationTable_def pathOf_def answer_def TrimSuffix_def HasSuffix_def
  IsUserPreferencesValid_def isIndex_def isDigit_def indexValue_def TrimSpace_def isSpace_def

theorem records_follow_copies_witness:
  "resolveEntry (exampleEnv\<lparr>CHECK_MD5_DISABLED := True\<rparr>) ''conf'' True sameUpdate baseline [] w0 =
     Inr ([], \<lparr>Added_files = [''repository/conf/n.xml''],
               Modified_files = [''repository/conf/a.xml''],
               copies = [(''upd/conf/a.xml'', ''temp/U/carbon.home/repository/conf/a.xml''),
                         (''upd/conf/n.xml'', ''temp/U/carbon.home/repository/conf/n.xml'')],
               prompts = []\<rparr>) \<and>
   (\<exists>lms. [(''upd/conf/a.xml'', ''temp/U/carbon.home/repository/conf/a.xml''),
            (''upd/conf/n.xml'', ''temp/U/carbon.home/repository/conf/n.xml'')]
             = map (copyOf (exampleEnv\<lparr>CHECK_MD5_DISABLED := True\<rparr>)) lms \<and>
      [''repository/conf/a.xml''] =
        map (recordOf (exampleEnv\<lparr>CHECK_MD5_DISABLED := True\<rparr>))
          (filter (\<lambda>lm. fileAt baseline (recordOf (exampleEnv\<lparr>CHECK_MD5_DISABLED := True\<rparr>) lm)) lms) \<and>
      [''repository/conf/n.xml''] =
        map (recordOf (exampleEnv\<lparr>CHECK_MD5_DISABLED := True\<rparr>))
          (filter (\<lambda>lm. \<not> fileAt baseline (recordOf (exampleEnv\<lparr>CHECK_MD5_DISABLED := True\<rparr>) lm)) lms) \<and>
      list_all (\<lambda>lm. isFileEntry sameUpdate (snd lm)) lms)"
proof -
  let ?W = "\<lparr>Added_files = [''repository/conf/n.xml''],
               Modified_files = [''repository/conf/a.xml''],
               copies = [(''upd/conf/a.xml'', ''temp/U/carbon.home/repository/conf/a.xml''),
                         (''upd/conf/n.xml'', ''temp/U/carbon.home/repository/conf/n.xml'')],
               prompts = []\<rparr>"
  have run: "resolveEntry (exampleEnv\<lparr>CHECK_MD5_DISABLED := True\<rparr>) ''conf'' True sameUpdate
      baseline [] w0 = Inr ([], ?W)"
    by (simp add: handler_eval copy_eval example_eval sameUpdate_def FindMatches_Node)
  from records_follow_copies [OF run] run show ?thesis by (simp add: w0_def)
qed

section \<open>Skipping files of equal hash\<close>

lemma exactly_records: "exactly e root lms w w' \<Longrightarrow> records w' = records w + length lms"
  using sum_length_filter_compl [of "\<lambda>lm. fileAt root (recordOf e lm)" lms]
  by (simp add: exactly_def records_def)

lemma copyUnlessSame_exactly:
  "copyUnlessSame e afm ms (UPDATE_ROOT e) loc root w = Inr w' \<Longrightarrow>
   exactly e root (kept e afm root loc ms) w w'"
  unfolding copyUnlessSame_filter kept_def by (drule copyMatches_exactly) simp

lemma copySelectedDirs_exactly:
  "copySelectedDirs e nm im afm root sel w = Inr w' \<Longrightarrow>
   exactly e root
     (concat (map (\<lambda>i. kept e afm root (pathOf im i) (getAllMatchingFiles nm afm)) sel)) w w'"
proof (induction sel arbitrary: w)
  case Nil
  then show ?case by simp
next
  case (Cons i sel)
  then obtain w1 where 1: "copyUnlessSame e afm (getAllMatchingFiles nm afm) (UPDATE_ROOT e)
      (pathOf im i) root w = Inr w1"
    and 2: "copySelectedDirs e nm im afm root sel w1 = Inr w'"
    by (auto simp: Let_def split: sum.splits)
  from exactly_trans [OF copyUnlessSame_exactly [OF 1] Cons.IH [OF 2]]
  show ?case by simp
qed

lemma copyFile_flag:
  "copyFile (e\<lparr>CHECK_MD5_DISABLED := b\<rparr>) m ur loc root w = copyFile e m ur loc root w"
  by (simp add: copyFile_def)

lemma copyMatches_flag:
  "copyMatches (e\<lparr>CHECK_MD5_DISABLED := b\<rparr>) ms ur loc root w = copyMatches e ms ur loc root w"
  by (induction ms arbitrary: w) (simp_all add: copyFile_flag cong: sum.case_cong)

lemma copyAnyway_flag:
  "copyAnyway (e\<lparr>CHECK_MD5_DISABLED := b\<rparr>) nm rel root afm input w =
   copyAnyway e nm rel root afm input w"
  by (induction input arbitrary: w)
    (simp_all add: copyMatches_flag Let_def cong: preference.case_cong)

lemma handleNewFile_flag:
  "handleNewFile (e\<lparr>CHECK_MD5_DISABLED := b\<rparr>) nm isD root afm input w =
   handleNewFile e nm isD root afm input w"
  by (simp add: handleNewFile_def copyMatches_flag copyFile_flag copyAnyway_flag Let_def
      cong: list.case_cong option.case_cong if_cong)

lemma askAddNew_flag:
  "askAddNew (e\<lparr>CHECK_MD5_DISABLED := b\<rparr>) nm isD afm root input w =
   askAddNew e nm isD afm root input w"
  by (induction input arbitrary: w)
    (simp_all add: handleNewFile_flag Let_def cong: preference.case_cong)

text \<open>
  Claim C2, as amended. With checking enabled, a file below a root level directory entry
  is passed over (no copy, no record) exactly when \<open>hashSkip\<close> holds for it at the
  destination: the baseline has a file node at the destination location joined with the
  file's relative path, with the hash of the file. This is so on the single match path,
  and just as well for every selected destination of the several matches path: the copies
  made are those of the files that are kept, one record each. On the no match path the
  setting of the check changes nothing. (The statement is silent on a root level file
  entry.)
\<close>

theorem hash_skip_on_directories:
  "(handleSingleMatch e nm mn True afm root w = Inr w' \<longrightarrow>
      copies w' = copies w @
        map (copyOf e) (kept e afm root (relativeLocation mn) (getAllMatchingFiles nm afm)) \<and>
      records w' = records w +
        length (kept e afm root (relativeLocation mn) (getAllMatchingFiles nm afm))) \<and>
   (copySelectedDirs e nm im afm root sel w = Inr w'' \<longrightarrow>
      copies w'' = copies w @
        map (copyOf e)
          (concat (map (\<lambda>i. kept e afm root (pathOf im i) (getAllMatchingFiles nm afm)) sel)) \<and>
      records w'' = records w +
        length (concat (map (\<lambda>i. kept e afm root (pathOf im i) (getAllMatchingFiles nm afm)) sel))) \<and>
   handleNoMatch (e\<lparr>CHECK_MD5_DISABLED := b\<rparr>) nm isD afm root input w =
     handleNoMatch e nm isD afm root input w"
proof (intro conjI impI)
  assume "handleSingleMatch e nm mn True afm root w = Inr w'"
  then have ex: "exactly e root (kept e afm root (relativeLocation mn) (getAllMatchingFiles nm afm)) w w'"
    by (simp add: handleSingleMatch_def copyUnlessSame_exactly)
  then show "copies w' = copies w @
        map (copyOf e) (kept e afm root (relativeLocation mn) (getAllMatchingFiles nm afm))"
    by (simp add: exactly_def)
  from ex show "records w' = records w +
        length (kept e afm root (relativeLocation mn) (getAllMatchingFiles nm afm))"
    by (rule exactly_records)
next
  assume "copySelectedDirs e nm im afm root sel w = Inr w''"
  then have ex: "exactly e root
     (concat (map (\<lambda>i. kept e afm root (pathOf im i) (getAllMatchingFiles nm afm)) sel)) w w''"
    by (rule copySelectedDirs_exactly)
  then show "copies w'' = copies w @
        map (copyOf e)
          (concat (map (\<lambda>i. kept e afm root (pathOf im i) (getAllMatchingFiles nm afm)) sel))"
    by (simp add: exactly_def)
  from ex show "records w'' = records w +
        length (concat (map (\<lambda>i. kept e afm root (pathOf im i) (getAllMatchingFiles nm afm)) sel))"
    by (rule exactly_records)
next
  show "handleNoMatch (e\<lparr>CHECK_MD5_DISABLED := b\<rparr>) nm isD afm root input w =
     handleNoMatch e nm isD afm root input w"
    by (simp add: handleNoMatch_def askAddNew_flag)
qed

lemma exampleEnv_fields [simp]:
  "UPDATE_ROOT exampleEnv = ''upd''" "UPDATE_NAME exampleEnv = ''U''"
  "CHECK_MD5_DISABLED exampleEnv = False"
  by (simp_all add: exampleEnv_def)

lemma FindMatches_twoConf:
  "FindMatches twoConf ''conf'' True [] =
     [(''a'', Node ''a'' True ''a''
           [(''conf'', Node ''conf'' True ''a/conf''
               [(''x.xml'', Node ''x.xml'' False ''a/conf/x.xml'' [] ''X'')] [])] []),
      (''b'', Node ''b'' True ''b''
           [(''conf'', Node ''conf'' True ''b/conf''
               [(''x.xml'', Node ''x.xml'' False ''b/conf/x.xml'' [] ''Y'')] [])] [])]"
  by (simp add: twoConf_def FindMatches_Node)

lemma table_twoConf:
  "generateLocationTable ''conf''
     [(''a'', Node ''a'' True ''a''
           [(''conf'', Node ''conf'' True ''a/conf''
               [(''x.xml'', Node ''x.xml'' False ''a/conf/x.xml'' [] ''X'')] [])] []),
      (''b'', Node ''b'' True ''b''
           [(''conf'', Node ''conf'' True ''b/conf''
               [(''x.xml'', Node ''x.xml'' False ''b/conf/x.xml'' [] ''Y'')] [])] [])] =
     [(''1'', ''a''), (''2'', ''b'')]"
  by (simp add: generateLocationTable_def Itoa.simps)

lemma readPreferences_both:
  "readPreferences (Suc (Suc 0)) [''1,2''] w =
     Inr ([], [''1'', ''2''], False,
          PrintInBold ''Enter preference(s)[Multiple selections separated by commas, 0 to skip copying]: '' w)"
  by (simp add: IsUserPreferencesValid_def isIndex_def isDigit_def indexValue_def TrimSpace_def
      isSpace_def Let_def)

lemma getAllMatchingFiles_confUpdate: "getAllMatchingFiles ''conf'' confUpdate = [''conf/x.xml'']"
  by (simp add: getAllMatchingFiles_def confUpdate_def fileData_def dirData_def HasPrefix_def)

lemma CompareMD5_twoConf:
  "CompareMD5 twoConf (Join [''a'', ''conf/x.xml'']) (data_md5 (dataOf confUpdate ''conf/x.xml''))
     = Some True"
  "CompareMD5 twoConf (Join [''b'', ''conf/x.xml'']) (data_md5 (dataOf confUpdate ''conf/x.xml''))
     = Some False"
  by (simp_all add: CompareMD5_def dataOf_def confUpdate_def fileData_def dirData_def twoConf_def
      Join_def Clean_def)

lemma copyFile_twoConf:
  "copyFile exampleEnv ''conf/x.xml'' ''upd'' ''a'' twoConf w =
     Inr (w\<lparr>copies := copies w @ [(''upd/conf/x.xml'', ''temp/U/carbon.home/a/conf/x.xml'')],
            Modified_files := Modified_files w @ [''a/conf/x.xml'']\<rparr>)"
  "copyFile exampleEnv ''conf/x.xml'' ''upd'' ''b'' twoConf w =
     Inr (w\<lparr>copies := copies w @ [(''upd/conf/x.xml'', ''temp/U/carbon.home/b/conf/x.xml'')],
            Modified_files := Modified_files w @ [''b/conf/x.xml'']\<rparr>)"
  by (simp_all add: copy_eval example_eval twoConf_def)

lemma copySelectedDirs_twoConf:
  "copySelectedDirs exampleEnv ''conf'' [(''1'', ''a''), (''2'', ''b'')] confUpdate twoConf
       [''1'', ''2''] w =
     Inr (w\<lparr>copies := copies w @ [(''upd/conf/x.xml'', ''temp/U/carbon.home/b/conf/x.xml'')],
            Modified_files := Modified_files w @ [''b/conf/x.xml'']\<rparr>)"
  by (simp add: Let_def pathOf_def getAllMatchingFiles_confUpdate CompareMD5_twoConf
      copyFile_twoConf)

lemma copySelectedDirs_twoConf_unchecked:
  "copySelectedDirs (exampleEnv\<lparr>CHECK_MD5_DISABLED := True\<rparr>) ''conf''
       [(''1'', ''a''), (''2'', ''b'')] confUpdate twoConf [''1'', ''2''] w =
     Inr (w\<lparr>copies := copies w @ [(''upd/conf/x.xml'', ''temp/U/carbon.home/a/conf/x.xml''),
                                   (''upd/conf/x.xml'', ''temp/U/carbon.home/b/conf/x.xml'')],
            Modified_files := Modified_files w @ [''a/conf/x.xml'', ''b/conf/x.xml'']\<rparr>)"
  by (simp add: Let_def pathOf_def getAllMatchingFiles_confUpdate copyFile_flag
      copyFile_twoConf)

lemma resolveEntry_twoConf:
  "resolveEntry e ''conf'' True confUpdate twoConf [''1,2''] w =
     withInput []
       (copySelectedDirs e ''conf'' [(''1'', ''a''), (''2'', ''b'')] confUpdate twoConf [''1'', ''2'']
          (PrintInBold ''Enter preference(s)[Multiple selections separated by commas, 0 to skip copying]: '' w))"
  by (simp add: resolveEntry_def FindMatches_twoConf handleMultipleMatches_def table_twoConf
      readPreferences_both Let_def del: copySelectedDirs.simps readPreferences.simps)

text \<open>
  Claim C2 as stated fails on the several matches path: the directory \<open>conf\<close> has two
  matches in \<open>twoConf\<close>, both are selected, and with checking enabled the file is not
  copied to \<open>a\<close>, where the baseline has a file of the same hash (with checking disabled
  it is copied to both).
\<close>

theorem multiple_match_skips_equal_hash:
  "length (FindMatches twoConf ''conf'' True []) = 2 \<and>
   CompareMD5 twoConf ''a/conf/x.xml'' (data_md5 (dataOf confUpdate ''conf/x.xml'')) = Some True \<and>
   resolveEntry exampleEnv ''conf'' True confUpdate twoConf [''1,2''] w0 =
     Inr ([], \<lparr>Added_files = [], Modified_files = [''b/conf/x.xml''],
               copies = [(''upd/conf/x.xml'', ''temp/U/carbon.home/b/conf/x.xml'')],
               prompts = [''Enter preference(s)[Multiple selections separated by commas, 0 to skip copying]: '']\<rparr>) \<and>
   resolveEntry (exampleEnv\<lparr>CHECK_MD5_DISABLED := True\<rparr>) ''conf'' True confUpdate twoConf
       [''1,2''] w0 =
     Inr ([], \<lparr>Added_files = [], Modified_files = [''a/conf/x.xml'', ''b/conf/x.xml''],
               copies = [(''upd/conf/x.xml'', ''temp/U/carbon.home/a/conf/x.xml''),
                         (''upd/conf/x.xml'', ''temp/U/carbon.home/b/conf/x.xml'')],
               prompts = [''Enter preference(s)[Multiple selections separated by commas, 0 to skip copying]: '']\<rparr>)"
proof -
  have "CompareMD5 twoConf ''a/conf/x.xml'' (data_md5 (dataOf confUpdate ''conf/x.xml''))
      = Some True"
    by (simp add: CompareMD5_def dataOf_def confUpdate_def fileData_def dirData_def twoConf_def)
  then show ?thesis
    by (simp add: FindMatches_twoConf resolveEntry_twoConf copySelectedDirs_twoConf
        copySelectedDirs_twoConf_unchecked withInput_def PrintInBold_def w0_def
        del: copySelectedDirs.simps)
qed

theorem hash_skip_on_directories_witness:
  "handleSingleMatch exampleEnv ''conf'' repositoryNode True sameUpdate baseline w0 =
     Inr \<lparr>Added_files = [''repository/conf/n.xml''], Modified_files = [],
          copies = [(''upd/conf/n.xml'', ''temp/U/carbon.home/repository/conf/n.xml'')],
          prompts = []\<rparr> \<and>
   hashSkip exampleEnv sameUpdate baseline ''repository'' ''conf/a.xml'' \<and>
   kept exampleEnv sameUpdate baseline (relativeLocation repositoryNode)
       (getAllMatchingFiles ''conf'' sameUpdate) = [(''repository'', ''conf/n.xml'')] \<and>
   [(''upd/conf/n.xml'', ''temp/U/carbon.home/repository/conf/n.xml'')] =
     map (copyOf exampleEnv)
       (kept exampleEnv sameUpdate baseline (relativeLocation repositoryNode)
          (getAllMatchingFiles ''conf'' sameUpdate)) \<and>
   copySelectedDirs exampleEnv ''conf'' [(''1'', ''a''), (''2'', ''b'')] confUpdate twoConf
       [''1'', ''2''] w0 =
     Inr \<lparr>Added_files = [], Modified_files = [''b/conf/x.xml''],
          copies = [(''upd/conf/x.xml'', ''temp/U/carbon.home/b/conf/x.xml'')],
          prompts = []\<rparr> \<and>
   concat (map (\<lambda>i. kept exampleEnv confUpdate twoConf (pathOf [(''1'', ''a''), (''2'', ''b'')] i)
                       (getAllMatchingFiles ''conf'' confUpdate)) [''1'', ''2'']) =
     [(''b'', ''conf/x.xml'')] \<and>
   [(''upd/conf/x.xml'', ''temp/U/carbon.home/b/conf/x.xml'')] =
     map (copyOf exampleEnv)
       (concat (map (\<lambda>i. kept exampleEnv confUpdate twoConf
                            (pathOf [(''1'', ''a''), (''2'', ''b'')] i)
                            (getAllMatchingFiles ''conf'' confUpdate)) [''1'', ''2''])) \<and>
   handleNoMatch (exampleEnv\<lparr>CHECK_MD5_DISABLED := True\<rparr>) ''conf'' True confUpdate twoConf
       [''n''] w0 =
     handleNoMatch exampleEnv ''conf'' True confUpdate twoConf [''n''] w0"
proof -
  let ?W1 = "\<lparr>Added_files = [''repository/conf/n.xml''], Modified_files = [],
          copies = [(''upd/conf/n.xml'', ''temp/U/carbon.home/repository/conf/n.xml'')],
          prompts = []\<rparr>"
  let ?W2 = "\<lparr>Added_files = [], Modified_files = [''b/conf/x.xml''],
          copies = [(''upd/conf/x.xml'', ''temp/U/carbon.home/b/conf/x.xml'')],
          prompts = []\<rparr>"
  have h1: "handleSingleMatch exampleEnv ''conf'' repositoryNode True sameUpdate baseline w0
      = Inr ?W1"
    by (simp add: handler_eval copy_eval example_eval sameUpdate_def)
  have h2: "copySelectedDirs exampleEnv ''conf'' [(''1'', ''a''), (''2'', ''b'')] confUpdate twoConf
       [''1'', ''2''] w0 = Inr ?W2"
    by (simp add: copySelectedDirs_twoConf w0_def del: copySelectedDirs.simps)
  have k1: "kept exampleEnv sameUpdate baseline (relativeLocation repositoryNode)
      (getAllMatchingFiles ''conf'' sameUpdate) = [(''repository'', ''conf/n.xml'')]"
    by (simp add: kept_def hashSkip_def handler_eval copy_eval example_eval sameUpdate_def)
  have s1: "hashSkip exampleEnv sameUpdate baseline ''repository'' ''conf/a.xml''"
    by (simp add: hashSkip_def copy_eval example_eval sameUpdate_def)
  have k2: "concat (map (\<lambda>i. kept exampleEnv confUpdate twoConf
      (pathOf [(''1'', ''a''), (''2'', ''b'')] i) (getAllMatchingFiles ''conf'' confUpdate))
      [''1'', ''2'']) = [(''b'', ''conf/x.xml'')]"
    by (simp add: kept_def hashSkip_def handler_eval copy_eval example_eval confUpdate_def
        twoConf_def)
  note single = hash_skip_on_directories [where e = exampleEnv and nm = "''conf''"
      and mn = repositoryNode and afm = sameUpdate and root = baseline and w = w0 and w' = ?W1]
  note several = hash_skip_on_directories [where e = exampleEnv and nm = "''conf''"
      and isD = True and afm = confUpdate and root = twoConf and w = w0 and w'' = ?W2
      and im = "[(''1'', ''a''), (''2'', ''b'')]" and sel = "[''1'', ''2'']"
      and input = "[''n'']" and b = True]
  from single h1 have c1: "copies ?W1 = copies w0 @ map (copyOf exampleEnv)
      (kept exampleEnv sameUpdate baseline (relativeLocation repositoryNode)
          (getAllMatchingFiles ''conf'' sameUpdate))"
    by blast
  from several h2 have c2: "copies ?W2 = copies w0 @ map (copyOf exampleEnv)
       (concat (map (\<lambda>i. kept exampleEnv confUpdate twoConf
                            (pathOf [(''1'', ''a''), (''2'', ''b'')] i)
                            (getAllMatchingFiles ''conf'' confUpdate)) [''1'', ''2'']))"
    by blast
  from several have n: "handleNoMatch (exampleEnv\<lparr>CHECK_MD5_DISABLED := True\<rparr>) ''conf'' True
      confUpdate twoConf [''n''] w0 = handleNoMatch exampleEnv ''conf'' True confUpdate twoConf
      [''n''] w0"
    by blast
  from c1 have c1': "[(''upd/conf/n.xml'', ''temp/U/carbon.home/repository/conf/n.xml'')] =
     map (copyOf exampleEnv)
       (kept exampleEnv sameUpdate baseline (relativeLocation repositoryNode)
          (getAllMatchingFiles ''conf'' sameUpdate))"
    by (simp add: w0_def)
  from c2 have c2': "[(''upd/conf/x.xml'', ''temp/U/carbon.home/b/conf/x.xml'')] =
     map (copyOf exampleEnv)
       (concat (map (\<lambda>i. kept exampleEnv confUpdate twoConf
                            (pathOf [(''1'', ''a''), (''2'', ''b'')] i)
                            (getAllMatchingFiles ''conf'' confUpdate)) [''1'', ''2'']))"
    by (simp add: w0_def)
  from h1 h2 k1 k2 s1 n c1' c2' show ?thesis by blast
qed

section \<open>Entries without a match\<close>


















end
